theory Spec2Isabelle
  imports Complex_Main
begin

section \<open>Promises\<close>

text \<open>
  Both services keep a table from a UI handle to the promise of its native object and
  do all their work in callbacks attached to that promise with \<^verbatim>\<open>then\<close>.  A promise is
  an identity in a heap; a callback is a value of a datatype that names the closure of the
  source (one constructor for each arrow function passed to \<^verbatim>\<open>then\<close>) and holds what
  the closure captured.  A callback never runs inside the call that attaches it: \<^verbatim>\<open>then\<close>
  on a settled promise queues a job, settling a pending promise queues one job per
  attached callback, in the order of attachment, and the jobs run one by one afterwards.
\<close>

type_synonym pid = nat

datatype error = TypeError

datatype 'v pstate = Pending | Fulfilled 'v | Rejected

datatype ('v, 'k) job = ReactionJob 'k 'v pid | RejectJob pid

record ('v, 'k) promise_heap =
  pstates :: "pid \<rightharpoonup> 'v pstate"
  reactions :: "(pid \<times> 'k \<times> pid) list"
  jobs :: "('v, 'k) job list"
  next_pid :: pid

definition new_promise ::
  "'v pstate \<Rightarrow> ('v, 'k, 'z) promise_heap_scheme \<Rightarrow> pid \<times> ('v, 'k, 'z) promise_heap_scheme" where
  "new_promise s st =
     (next_pid st, st\<lparr>pstates := (pstates st)(next_pid st \<mapsto> s), next_pid := Suc (next_pid st)\<rparr>)"

definition job_of :: "'v pstate \<Rightarrow> pid \<times> 'k \<times> pid \<Rightarrow> ('v, 'k) job" where
  "job_of s r = (case s of Fulfilled v \<Rightarrow> ReactionJob (fst (snd r)) v (snd (snd r))
                         | _ \<Rightarrow> RejectJob (snd (snd r)))"

text \<open>Settling a promise that is not pending does nothing, as in the language.\<close>

definition settle ::
  "pid \<Rightarrow> 'v pstate \<Rightarrow> ('v, 'k, 'z) promise_heap_scheme \<Rightarrow> ('v, 'k, 'z) promise_heap_scheme" where
  "settle p s st =
     (if pstates st p = Some Pending \<and> s \<noteq> Pending
      then st\<lparr>pstates := (pstates st)(p \<mapsto> s),
              reactions := filter (\<lambda>r. fst r \<noteq> p) (reactions st),
              jobs := jobs st @ map (job_of s) (filter (\<lambda>r. fst r = p) (reactions st))\<rparr>
      else st)"

text \<open>
  Attaching the callback \<open>k\<close> to \<open>p\<close>, with \<open>q\<close> the promise of the callback's
  result: \<open>k\<close> waits while \<open>p\<close> is pending and is queued at once when \<open>p\<close> is
  settled.  No callback of the two services has a rejection handler, so a rejected \<open>p\<close>
  rejects \<open>q\<close>.
\<close>

definition attach ::
  "pid \<Rightarrow> 'k \<Rightarrow> pid \<Rightarrow> ('v, 'k, 'z) promise_heap_scheme \<Rightarrow> ('v, 'k, 'z) promise_heap_scheme" where
  "attach p k q st =
     (case pstates st p of
        Some (Fulfilled v) \<Rightarrow> st\<lparr>jobs := jobs st @ [ReactionJob k v q]\<rparr>
      | Some Rejected \<Rightarrow> st\<lparr>jobs := jobs st @ [RejectJob q]\<rparr>
      | _ \<Rightarrow> st\<lparr>reactions := reactions st @ [(p, k, q)]\<rparr>)"

text \<open>\<^verbatim>\<open>p.then(k)\<close>: a new promise for the callback's result, and the callback attached.\<close>

definition then_on ::
  "pid \<Rightarrow> 'k \<Rightarrow> ('v, 'k, 'z) promise_heap_scheme \<Rightarrow> pid \<times> ('v, 'k, 'z) promise_heap_scheme" where
  "then_on p k st = (let (q, st1) = new_promise Pending st in (q, attach p k q st1))"

text \<open>
  What a callback does at its end: it returns a value, returns another promise, or throws.
  The promise \<open>q\<close> of its result is fulfilled with the value, follows the returned
  promise (through the callback \<open>idk\<close> that returns its argument), or is rejected.
\<close>

datatype 'v outcome = Return 'v | ReturnPromise pid | Throw error

definition finish ::
  "'k \<Rightarrow> pid \<Rightarrow> 'v outcome \<Rightarrow> ('v, 'k, 'z) promise_heap_scheme \<Rightarrow> ('v, 'k, 'z) promise_heap_scheme" where
  "finish idk q r st =
     (case r of
        Return v \<Rightarrow> settle q (Fulfilled v) st
      | ReturnPromise p \<Rightarrow> attach p idk q st
      | Throw e \<Rightarrow> settle q Rejected st)"

text \<open>\<^verbatim>\<open>Promise.resolve()\<close>: a new promise, fulfilled already.\<close>

definition Promise_resolve ::
  "'v \<Rightarrow> ('v, 'k, 'z) promise_heap_scheme \<Rightarrow> pid \<times> ('v, 'k, 'z) promise_heap_scheme" where
  "Promise_resolve v st = new_promise (Fulfilled v) st"

section \<open>The marker service\<close>

subsection \<open>Data\<close>

text \<open>
  Numbers are \<open>real\<close>; a property that may be \<^verbatim>\<open>undefined\<close> is an option.  The
  fields \<^verbatim>\<open>x\<close>, \<^verbatim>\<open>y\<close> of a point and \<^verbatim>\<open>size\<close> of the icon information are
  renamed (\<open>pt_x\<close>, \<open>pt_y\<close>, \<open>icon_size\<close>).  The icon information of a marker is
  an object that the options share with the marker and that the service reads again later,
  so \<^verbatim>\<open>IconInfo\<close> and \<^verbatim>\<open>iconInfo\<close> hold a reference to it, and the state holds
  the objects.
\<close>

type_synonym handle = nat
type_synonym nid = nat
type_synonym oid = nat
type_synonym ev = nat
type_synonym iref = nat

record ILatLong =
  latitude :: real
  longitude :: real

record IPoint =
  pt_x :: real
  pt_y :: real

record ISize =
  width :: real
  height :: real

record IMarkerIconInfo =
  icon_size :: "ISize option"
  markerOffsetRatio :: "IPoint option"

record MapMarker =
  Latitude :: real
  Longitude :: real
  Title :: "string option"
  Label :: "string option"
  Draggable :: bool
  IconUrl :: "string option"
  IconInfo :: "iref option"
  Width :: "real option"
  Height :: "real option"
  Anchor :: "IPoint option"
  Metadata :: "(string \<times> string) list option"
  InClusterLayer :: bool
  InCustomLayer :: bool
  LayerId :: nat

record IMarkerOptions =
  position :: ILatLong
  title :: "string option"
  label :: "string option"
  draggable :: "bool option"
  icon :: "string option"
  iconInfo :: "iref option"
  width :: "real option"
  height :: "real option"
  anchor :: "IPoint option"
  metadata :: "(string \<times> string) list option"

text \<open>
  What a promise of the marker service holds: a native marker, a pixel position
  (\<^verbatim>\<open>LocationToPoint\<close>), or nothing (\<^verbatim>\<open>void\<close>).
\<close>

datatype mval = VMarker nid | VPoint IPoint | VVoid

text \<open>The callbacks of the marker service, each named after the method that attaches it.\<close>

datatype mcont =
    AddMarker_then handle IMarkerOptions
  | CreateEventObservable_then string oid
  | DeleteMarker_then handle
  | LocationToPoint_then handle
  | UpdateAnchor_then handle
  | UpdateMarkerPosition_then handle
  | UpdateTitle_then handle
  | UpdateLabel_then handle
  | UpdateDraggable_then handle
  | UpdateIcon_then handle
  | Identity_then

text \<open>
  The listener that \<^verbatim>\<open>CreateEventObservable\<close> hands to the native object:
  \<^verbatim>\<open>(e: T) => this._zone.run(() => observer.next(e))\<close>.
\<close>

datatype listener = Forward oid

text \<open>
  The icon handed to \<^verbatim>\<open>SetIcon\<close>: the marker's \<^verbatim>\<open>IconUrl\<close>, or the \<^verbatim>\<open>icon\<close>
  of \<^verbatim>\<open>BingConversions.TranslateMarkerOptions(x)\<close>, a function outside these sources
  that is kept as a term.
\<close>

datatype icon_arg = IconUrl_arg "string option" | TranslateMarkerOptions_icon IMarkerOptions

text \<open>
  The point handed to \<^verbatim>\<open>SetAnchor\<close>: the marker's \<^verbatim>\<open>Anchor\<close>, or the offset that
  \<^verbatim>\<open>AddMarker\<close> computes from the size \<open>s\<close> and the ratio \<open>r\<close> of the icon,
  \<^verbatim>\<open>{x: s.width * r.x, y: s.height * r.y}\<close>.  The products are those of the language's
  floating point numbers and are kept as a term.
\<close>

datatype anchor_arg = Anchor_arg "IPoint option" | Anchor_offset ISize IPoint

text \<open>
  Every call that leaves the service, in the order made: to the map, layer and cluster
  services (with the promise they return), to a native marker, to the marker component's
  event emitter and to an observer.
\<close>

datatype mcall =
    ClusterService_CreateMarker nat IMarkerOptions pid
  | LayerService_CreateMarker nat IMarkerOptions pid
  | MapService_CreateMarker IMarkerOptions pid
  | Marker_SetAnchor nid anchor_arg
  | Marker_SetPosition nid ILatLong
  | Marker_SetTitle nid "string option"
  | Marker_SetLabel nid "string option"
  | Marker_SetDraggable nid bool
  | Marker_SetIcon nid icon_arg
  | Marker_DeleteMarker nid
  | Marker_AddListener nid string listener
  | MapService_LocationToPoint_of_Location nid pid
  | DynamicMarkerCreated_emit handle "iref option"
  | Observer_next oid ev

text \<open>
  The state: the promise heap, the table \<^verbatim>\<open>_markers\<close>, the marker components and the
  icon information objects (owned by the framework, read by the service through the handle
  and the reference), what the subscribers of \<^verbatim>\<open>DynamicMarkerCreated\<close> do to the icon
  information objects when the event is emitted, and the calls made so far.
\<close>

record mstate = "(mval, mcont) promise_heap" +
  markers :: "handle \<rightharpoonup> pid"
  marker_objs :: "handle \<Rightarrow> MapMarker"
  icon_objs :: "iref \<Rightarrow> IMarkerIconInfo"
  on_emit :: "handle \<Rightarrow> iref option \<Rightarrow> (iref \<Rightarrow> IMarkerIconInfo) \<Rightarrow> (iref \<Rightarrow> IMarkerIconInfo)"
  calls :: "mcall list"

subsection \<open>Operations\<close>

text \<open>A creation call of an outside service: it is recorded and returns a new promise.\<close>

definition create_call :: "(pid \<Rightarrow> mcall) \<Rightarrow> mstate \<Rightarrow> pid \<times> mstate" where
  "create_call c st =
     (let (p, st1) = new_promise Pending st in (p, st1\<lparr>calls := calls st1 @ [c p]\<rparr>))"

text \<open>
  \<^verbatim>\<open>marker.DynamicMarkerCreated.emit(i)\<close>: the call is recorded and the subscribers run
  on the spot; they may change the icon information objects.
\<close>

definition emit :: "handle \<Rightarrow> iref option \<Rightarrow> mstate \<Rightarrow> mstate" where
  "emit marker i st =
     st\<lparr>calls := calls st @ [DynamicMarkerCreated_emit marker i],
        icon_objs := on_emit st marker i (icon_objs st)\<rparr>"

text \<open>\<^verbatim>\<open>if (marker.Width)\<close>: a number is truthy when it is defined and not zero.\<close>

definition truthy_num :: "real option \<Rightarrow> bool" where
  "truthy_num v = (case v of None \<Rightarrow> False | Some r \<Rightarrow> r \<noteq> 0)"

definition marker_options :: "MapMarker \<Rightarrow> IMarkerOptions" where
  "marker_options marker =
     (let o0 = \<lparr>position = \<lparr>latitude = Latitude marker, longitude = Longitude marker\<rparr>,
                title = Title marker,
                label = Label marker,
                draggable = Some (Draggable marker),
                icon = IconUrl marker,
                iconInfo = IconInfo marker,
                width = None, height = None, anchor = None, metadata = None\<rparr>;
          o1 = (if truthy_num (Width marker) then o0\<lparr>width := Width marker\<rparr> else o0);
          o2 = (if truthy_num (Height marker) then o1\<lparr>height := Height marker\<rparr> else o1);
          o3 = (if Anchor marker \<noteq> None then o2\<lparr>anchor := Anchor marker\<rparr> else o2);
          o4 = (if Metadata marker \<noteq> None then o3\<lparr>metadata := Metadata marker\<rparr> else o3)
      in o4)"

definition AddMarker :: "handle \<Rightarrow> mstate \<Rightarrow> mstate" where
  "AddMarker marker st =
     (let m = marker_objs st marker;
          opts = marker_options m;
          (markerPromise, st1) =
            (if InClusterLayer m then create_call (ClusterService_CreateMarker (LayerId m) opts) st
             else if InCustomLayer m then create_call (LayerService_CreateMarker (LayerId m) opts) st
             else create_call (MapService_CreateMarker opts) st);
          st2 = st1\<lparr>markers := (markers st1)(marker \<mapsto> markerPromise)\<rparr>
      in if IconInfo m \<noteq> None then snd (then_on markerPromise (AddMarker_then marker opts) st2)
         else st2)"

text \<open>
  The body of each callback, run on the value \<open>v\<close> of the promise it was attached to.
  A method call on a value that is no native marker throws.  The components and the icon
  information are read when the callback runs.  \<^verbatim>\<open>NgZone.run\<close> runs its argument on the
  spot.
\<close>

fun marker_callback :: "mcont \<Rightarrow> mval \<Rightarrow> mstate \<Rightarrow> mval outcome \<times> mstate" where
  "marker_callback (AddMarker_then marker opts) v st =
     (let st1 = emit marker (iconInfo opts) st in
      case iconInfo opts of
        None \<Rightarrow> (Throw TypeError, st1)
      | Some i \<Rightarrow>
          (let p = (case (icon_size (icon_objs st1 i), markerOffsetRatio (icon_objs st1 i)) of
                      (Some s, Some r) \<Rightarrow> Anchor_offset s r
                    | _ \<Rightarrow> Anchor_arg (Some \<lparr>pt_x = 0, pt_y = 0\<rparr>)) in
           case v of
             VMarker m \<Rightarrow> (Return VVoid, st1\<lparr>calls := calls st1 @ [Marker_SetAnchor m p]\<rparr>)
           | _ \<Rightarrow> (Throw TypeError, st1)))"
| "marker_callback (CreateEventObservable_then eventName observer) v st =
     (case v of
        VMarker m \<Rightarrow>
          (Return VVoid, st\<lparr>calls := calls st @ [Marker_AddListener m eventName (Forward observer)]\<rparr>)
      | _ \<Rightarrow> (Throw TypeError, st))"
| "marker_callback (DeleteMarker_then marker) v st =
     (case v of
        VMarker m \<Rightarrow>
          (Return VVoid, st\<lparr>calls := calls st @ [Marker_DeleteMarker m],
                              markers := (markers st)(marker := None)\<rparr>)
      | _ \<Rightarrow> (Throw TypeError, st))"
| "marker_callback (LocationToPoint_then marker) v st =
     (case v of
        VMarker m \<Rightarrow>
          (let (p, st1) = create_call (MapService_LocationToPoint_of_Location m) st
           in (ReturnPromise p, st1))
      | _ \<Rightarrow> (Throw TypeError, st))"
| "marker_callback (UpdateAnchor_then marker) v st =
     (case v of
        VMarker m \<Rightarrow>
          (Return VVoid, st\<lparr>calls := calls st @ [Marker_SetAnchor m (Anchor_arg (Anchor (marker_objs st marker)))]\<rparr>)
      | _ \<Rightarrow> (Throw TypeError, st))"
| "marker_callback (UpdateMarkerPosition_then marker) v st =
     (case v of
        VMarker m \<Rightarrow>
          (Return VVoid,
           st\<lparr>calls := calls st @
                [Marker_SetPosition m \<lparr>latitude = Latitude (marker_objs st marker),
                                        longitude = Longitude (marker_objs st marker)\<rparr>]\<rparr>)
      | _ \<Rightarrow> (Throw TypeError, st))"
| "marker_callback (UpdateTitle_then marker) v st =
     (case v of
        VMarker m \<Rightarrow>
          (Return VVoid, st\<lparr>calls := calls st @ [Marker_SetTitle m (Title (marker_objs st marker))]\<rparr>)
      | _ \<Rightarrow> (Throw TypeError, st))"
| "marker_callback (UpdateLabel_then marker) v st =
     (case v of
        VMarker m \<Rightarrow>
          (Return VVoid, st\<lparr>calls := calls st @ [Marker_SetLabel m (Label (marker_objs st marker))]\<rparr>)
      | _ \<Rightarrow> (Throw TypeError, st))"
| "marker_callback (UpdateDraggable_then marker) v st =
     (case v of
        VMarker m \<Rightarrow>
          (Return VVoid,
           st\<lparr>calls := calls st @ [Marker_SetDraggable m (Draggable (marker_objs st marker))]\<rparr>)
      | _ \<Rightarrow> (Throw TypeError, st))"
| "marker_callback (UpdateIcon_then marker) v st =
     (case v of
        VMarker m \<Rightarrow>
          (let mk = marker_objs st marker in
           if IconInfo mk \<noteq> None
           then (let x = \<lparr>position = \<lparr>latitude = Latitude mk, longitude = Longitude mk\<rparr>,
                          title = None, label = None, draggable = None, icon = None,
                          iconInfo = IconInfo mk,
                          width = None, height = None, anchor = None, metadata = None\<rparr>
                 in (Return VVoid,
                     emit marker (iconInfo x)
                       (st\<lparr>calls := calls st @ [Marker_SetIcon m (TranslateMarkerOptions_icon x)]\<rparr>)))
           else (Return VVoid, st\<lparr>calls := calls st @ [Marker_SetIcon m (IconUrl_arg (IconUrl mk))]\<rparr>))
      | _ \<Rightarrow> (Throw TypeError, st))"
| "marker_callback Identity_then v st = (Return v, st)"

text \<open>
  \<^verbatim>\<open>CreateEventObservable\<close> returns \<^verbatim>\<open>Observable.create(f)\<close>, which does nothing until
  it is subscribed to; each subscription runs \<open>f\<close> on the subscriber.
  \<open>subscribe\<close> is that run.  \<^verbatim>\<open>this._markers.get(marker).then\<close> throws when the table
  has no entry, here and in every method below that does not test the entry first.
\<close>

datatype mobservable = Observable_create string handle

definition CreateEventObservable :: "string \<Rightarrow> handle \<Rightarrow> mobservable" where
  "CreateEventObservable eventName marker = Observable_create eventName marker"

fun subscribe :: "mobservable \<Rightarrow> oid \<Rightarrow> mstate \<Rightarrow> error + mstate" where
  "subscribe (Observable_create eventName marker) observer st =
     (case markers st marker of
        None \<Rightarrow> Inl TypeError
      | Some p \<Rightarrow> Inr (snd (then_on p (CreateEventObservable_then eventName observer) st)))"

definition DeleteMarker :: "handle \<Rightarrow> mstate \<Rightarrow> pid \<times> mstate" where
  "DeleteMarker marker st =
     (case markers st marker of
        None \<Rightarrow> Promise_resolve VVoid st
      | Some m \<Rightarrow> then_on m (DeleteMarker_then marker) st)"


definition LocationToPoint :: "handle \<Rightarrow> mstate \<Rightarrow> error + pid \<times> mstate" where
  "LocationToPoint marker st =
     (case markers st marker of
        None \<Rightarrow> Inl TypeError
      | Some p \<Rightarrow> Inr (then_on p (LocationToPoint_then marker) st))"

definition UpdateAnchor :: "handle \<Rightarrow> mstate \<Rightarrow> error + pid \<times> mstate" where
  "UpdateAnchor marker st =
     (case markers st marker of
        None \<Rightarrow> Inl TypeError
      | Some p \<Rightarrow> Inr (then_on p (UpdateAnchor_then marker) st))"

definition UpdateMarkerPosition :: "handle \<Rightarrow> mstate \<Rightarrow> error + pid \<times> mstate" where
  "UpdateMarkerPosition marker st =
     (case markers st marker of
        None \<Rightarrow> Inl TypeError
      | Some p \<Rightarrow> Inr (then_on p (UpdateMarkerPosition_then marker) st))"

definition UpdateTitle :: "handle \<Rightarrow> mstate \<Rightarrow> error + pid \<times> mstate" where
  "UpdateTitle marker st =
     (case markers st marker of
        None \<Rightarrow> Inl TypeError
      | Some p \<Rightarrow> Inr (then_on p (UpdateTitle_then marker) st))"

definition UpdateLabel :: "handle \<Rightarrow> mstate \<Rightarrow> error + pid \<times> mstate" where
  "UpdateLabel marker st =
     (case markers st marker of
        None \<Rightarrow> Inl TypeError
      | Some p \<Rightarrow> Inr (then_on p (UpdateLabel_then marker) st))"

definition UpdateDraggable :: "handle \<Rightarrow> mstate \<Rightarrow> error + pid \<times> mstate" where
  "UpdateDraggable marker st =
     (case markers st marker of
        None \<Rightarrow> Inl TypeError
      | Some p \<Rightarrow> Inr (then_on p (UpdateDraggable_then marker) st))"

definition UpdateIcon :: "handle \<Rightarrow> mstate \<Rightarrow> error + pid \<times> mstate" where
  "UpdateIcon marker st =
     (case markers st marker of
        None \<Rightarrow> Inl TypeError
      | Some p \<Rightarrow> Inr (then_on p (UpdateIcon_then marker) st))"

subsection \<open>Click events\<close>

text \<open>
  The event argument of the SDK: \<^verbatim>\<open>primitive\<close> is the clicked shape, a pushpin (with
  the location that \<^verbatim>\<open>getLocation()\<close> returns) or another shape; \<^verbatim>\<open>location\<close> is the
  place of the click.  A missing event or field is \<open>None\<close>.
\<close>

datatype primitive_shape = Pushpin ILatLong | OtherShape

record IMouseEventArgs =
  primitive :: "primitive_shape option"
  location :: "ILatLong option"

definition GetCoordinatesFromClick :: "IMouseEventArgs option \<Rightarrow> ILatLong option" where
  "GetCoordinatesFromClick e =
     (case e of
        None \<Rightarrow> None
      | Some ev \<Rightarrow>
          (case primitive ev of
             None \<Rightarrow> None
           | Some (Pushpin loc) \<Rightarrow> Some \<lparr>latitude = latitude loc, longitude = longitude loc\<rparr>
           | Some OtherShape \<Rightarrow> None))"

text \<open>
  \<open>TranslateLocation\<close> (of \<^verbatim>\<open>BingConversions\<close>) and \<open>tryLocationToPixel\<close> (of the
  SDK's map, with the pixel reference fixed to the control) are outside these sources and
  are parameters.
\<close>

definition GetPixelsFromClick ::
  "(ILatLong \<Rightarrow> 'l) \<Rightarrow> ('l \<Rightarrow> IPoint option) \<Rightarrow> IMouseEventArgs option \<Rightarrow> IPoint option" where
  "GetPixelsFromClick TranslateLocation tryLocationToPixel e =
     (case GetCoordinatesFromClick e of
        None \<Rightarrow> None
      | Some loc \<Rightarrow>
          (case tryLocationToPixel (TranslateLocation loc) of
             None \<Rightarrow> None
           | Some p \<Rightarrow> Some \<lparr>pt_x = pt_x p, pt_y = pt_y p\<rparr>))"

subsection \<open>Running the queue, and the world outside\<close>

text \<open>Running the first queued job: the callback's body, then the promise of its result.\<close>

definition run_job :: "mstate \<Rightarrow> mstate" where
  "run_job st =
     (case jobs st of
        [] \<Rightarrow> st
      | RejectJob q # js \<Rightarrow> settle q Rejected (st\<lparr>jobs := js\<rparr>)
      | ReactionJob k v q # js \<Rightarrow>
          (let (r, st1) = marker_callback k v (st\<lparr>jobs := js\<rparr>) in finish Identity_then q r st1))"

text \<open>
  Modelled from the spec: the native marker (\<^verbatim>\<open>models/marker\<close>, not among the sources)
  is the SDK object of the glossary, to which "register event" is forwarded as one call,
  \<^verbatim>\<open>AddListener\<close>.  What it does with a listener is the usual contract of that call:
  when the marker raises an event it calls, in the order of registration, the listeners
  added under the event's name.
\<close>

fun listeners_of :: "nid \<Rightarrow> string \<Rightarrow> mcall list \<Rightarrow> listener list" where
  "listeners_of m eventName [] = []"
| "listeners_of m eventName (Marker_AddListener m' n l # cs) =
     (if m' = m \<and> n = eventName then l # listeners_of m eventName cs
      else listeners_of m eventName cs)"
| "listeners_of m eventName (c # cs) = listeners_of m eventName cs"

fun run_listener :: "listener \<Rightarrow> ev \<Rightarrow> mstate \<Rightarrow> mstate" where
  "run_listener (Forward observer) e st = st\<lparr>calls := calls st @ [Observer_next observer e]\<rparr>"

definition raise_event :: "nid \<Rightarrow> string \<Rightarrow> ev \<Rightarrow> mstate \<Rightarrow> mstate" where
  "raise_event m eventName e st =
     foldl (\<lambda>s l. run_listener l e s) st (listeners_of m eventName (calls st))"

text \<open>
  One step of the world: a call of a method of the service (a call that throws leaves the
  state as it was), a subscription, or a step of the outside: a creation promise is
  settled, the next job runs, a native marker raises an event, the framework changes a
  marker component or an icon information object, or subscribes to \<^verbatim>\<open>DynamicMarkerCreated\<close>.
\<close>

datatype mop =
    Call_AddMarker handle
  | Call_subscribe string handle oid
  | Call_DeleteMarker handle
  | Call_GetNativeMarker handle
  | Call_LocationToPoint handle
  | Call_UpdateAnchor handle
  | Call_UpdateMarkerPosition handle
  | Call_UpdateTitle handle
  | Call_UpdateLabel handle
  | Call_UpdateDraggable handle
  | Call_UpdateIcon handle
  | Settle pid "mval pstate"
  | RunJob
  | RaiseEvent nid string ev
  | SetMarker handle MapMarker
  | SetIconInfo iref IMarkerIconInfo
  | Subscribe_DynamicMarkerCreated
      "handle \<Rightarrow> iref option \<Rightarrow> (iref \<Rightarrow> IMarkerIconInfo) \<Rightarrow> (iref \<Rightarrow> IMarkerIconInfo)"

definition state_of :: "mstate \<Rightarrow> error + pid \<times> mstate \<Rightarrow> mstate" where
  "state_of st r = (case r of Inl e \<Rightarrow> st | Inr (q, st1) \<Rightarrow> st1)"

fun mstep :: "mop \<Rightarrow> mstate \<Rightarrow> mstate" where
  "mstep (Call_AddMarker h) st = AddMarker h st"
| "mstep (Call_subscribe n h ob) st =
     (case subscribe (CreateEventObservable n h) ob st of Inl e \<Rightarrow> st | Inr st1 \<Rightarrow> st1)"
| "mstep (Call_DeleteMarker h) st = snd (DeleteMarker h st)"
| "mstep (Call_GetNativeMarker h) st = st"
| "mstep (Call_LocationToPoint h) st = state_of st (LocationToPoint h st)"
| "mstep (Call_UpdateAnchor h) st = state_of st (UpdateAnchor h st)"
| "mstep (Call_UpdateMarkerPosition h) st = state_of st (UpdateMarkerPosition h st)"
| "mstep (Call_UpdateTitle h) st = state_of st (UpdateTitle h st)"
| "mstep (Call_UpdateLabel h) st = state_of st (UpdateLabel h st)"
| "mstep (Call_UpdateDraggable h) st = state_of st (UpdateDraggable h st)"
| "mstep (Call_UpdateIcon h) st = state_of st (UpdateIcon h st)"
| "mstep (Settle p s) st = settle p s st"
| "mstep RunJob st = run_job st"
| "mstep (RaiseEvent m n e) st = raise_event m n e st"
| "mstep (SetMarker h mk) st = st\<lparr>marker_objs := (marker_objs st)(h := mk)\<rparr>"
| "mstep (SetIconInfo r i) st = st\<lparr>icon_objs := (icon_objs st)(r := i)\<rparr>"
| "mstep (Subscribe_DynamicMarkerCreated f) st = st\<lparr>on_emit := f\<rparr>"

section \<open>The polyline service\<close>

subsection \<open>Data\<close>

text \<open>
  A path is an array of points or an array of such arrays.  The field \<^verbatim>\<open>id\<close> of the
  options is renamed \<open>polyline_id\<close>.  The names that the marker service has taken
  carry the prefix \<open>Polyline_\<close>.
\<close>

type_synonym aref = nat

datatype polyline_path = Flat "ILatLong list" | Nested "ILatLong list list"

record MapPolylineDirective =
  Id :: nat
  Clickable :: bool
  Draggable :: bool
  Editable :: bool
  Geodesic :: bool
  Path :: polyline_path
  ShowTooltip :: bool
  StrokeColor :: "string option"
  StrokeOpacity :: "real option"
  StrokeWeight :: "real option"
  Title :: "string option"
  Visible :: bool
  zIndex :: "real option"
  InCustomLayer :: bool
  LayerId :: nat

record IPolylineOptions =
  polyline_id :: "nat option"
  clickable :: "bool option"
  draggable :: "bool option"
  editable :: "bool option"
  geodesic :: "bool option"
  path :: "polyline_path option"
  showTooltip :: "bool option"
  strokeColor :: "string option"
  strokeOpacity :: "real option"
  strokeWeight :: "real option"
  title :: "string option"
  visible :: "bool option"
  zIndex :: "real option"

text \<open>
  What a promise of the polyline service holds: one native polyline, an array of native
  polylines (a reference: the array is changed in place), or nothing.
\<close>

datatype pval = VLine nid | VLines aref | VNothing

datatype pcont =
    Polyline_CreateEventObservable_then string oid
  | DeletePolyline_then handle
  | SetOptions_then IPolylineOptions
  | UpdatePolyline_then handle
  | Polyline_Identity_then

datatype pcall =
    LayerService_CreatePolyline nat IPolylineOptions pid
  | MapService_CreatePolyline IPolylineOptions pid
  | Polyline_AddListener nid string listener
  | Polyline_Delete nid
  | Polyline_SetOptions nid IPolylineOptions
  | Polyline_SetPath nid "ILatLong list"
  | Polyline_Observer_next oid ev

record plstate = "(pval, pcont) promise_heap" +
  polylines :: "handle \<rightharpoonup> pid"
  polyline_objs :: "handle \<Rightarrow> MapPolylineDirective"
  arrays :: "aref \<Rightarrow> nid list"
  pcalls :: "pcall list"

subsection \<open>Operations\<close>

definition Polyline_create_call :: "(pid \<Rightarrow> pcall) \<Rightarrow> plstate \<Rightarrow> pid \<times> plstate" where
  "Polyline_create_call c st =
     (let (p, st1) = new_promise Pending st in (p, st1\<lparr>pcalls := pcalls st1 @ [c p]\<rparr>))"

definition polyline_options :: "MapPolylineDirective \<Rightarrow> IPolylineOptions" where
  "polyline_options polyline =
     \<lparr>polyline_id = Some (Id polyline),
      clickable = Some (Clickable polyline),
      draggable = Some (MapPolylineDirective.Draggable polyline),
      editable = Some (Editable polyline),
      geodesic = Some (Geodesic polyline),
      path = Some (Path polyline),
      showTooltip = Some (ShowTooltip polyline),
      strokeColor = StrokeColor polyline,
      strokeOpacity = StrokeOpacity polyline,
      strokeWeight = StrokeWeight polyline,
      title = MapPolylineDirective.Title polyline,
      visible = Some (Visible polyline),
      zIndex = MapPolylineDirective.zIndex polyline\<rparr>"

definition AddPolyline :: "handle \<Rightarrow> plstate \<Rightarrow> plstate" where
  "AddPolyline polyline st =
     (let pl = polyline_objs st polyline;
          opts = polyline_options pl;
          (polylinePromise, st1) =
            (if MapPolylineDirective.InCustomLayer pl
             then Polyline_create_call
                    (LayerService_CreatePolyline (MapPolylineDirective.LayerId pl) opts) st
             else Polyline_create_call (MapService_CreatePolyline opts) st)
      in st1\<lparr>polylines := (polylines st1)(polyline \<mapsto> polylinePromise)\<rparr>)"

text \<open>
  \<^verbatim>\<open>Array.isArray(l) ? l : [l]\<close>.  With nothing for \<open>l\<close> the one element is
  \<^verbatim>\<open>undefined\<close>, and a method call on it throws: \<open>None\<close>.
\<close>

definition as_array :: "pval \<Rightarrow> plstate \<Rightarrow> nid list option" where
  "as_array l st =
     (case l of VLine n \<Rightarrow> Some [n] | VLines a \<Rightarrow> Some (arrays st a) | VNothing \<Rightarrow> None)"

text \<open>
  \<^verbatim>\<open>polyline.Path.length > 0 && Array.isArray(polyline.Path[0]) ? polyline.Path : [polyline.Path]\<close>
\<close>

definition normalize_path :: "polyline_path \<Rightarrow> ILatLong list list" where
  "normalize_path pa =
     (case pa of
        Flat pts \<Rightarrow> [pts]
      | Nested segs \<Rightarrow> (if length segs > 0 then segs else [ [] ]))"

text \<open>
  \<^verbatim>\<open>x.forEach((line, index) => { if (p.length > index) { line.SetPath(p[index]); } })\<close>:
  the calls made, from the index \<open>index\<close> on.
\<close>

fun forEach_SetPath :: "nid list \<Rightarrow> nat \<Rightarrow> ILatLong list list \<Rightarrow> pcall list" where
  "forEach_SetPath [] index p = []"
| "forEach_SetPath (line # x) index p =
     (if length p > index then [Polyline_SetPath line (p ! index)] else [])
       @ forEach_SetPath x (Suc index) p"

text \<open>
  \<^verbatim>\<open>xs.splice(start)\<close> removes the elements from \<open>start\<close> to the end and returns
  them; a negative \<open>start\<close> counts from the end.  The result is the removed elements
  and the array that is left.
\<close>

definition splice :: "int \<Rightarrow> 'a list \<Rightarrow> 'a list \<times> 'a list" where
  "splice start xs =
     (let n = int (length xs);
          s = nat (if start < 0 then max (n + start) 0 else min start n)
      in (drop s xs, take s xs))"

fun polyline_callback :: "pcont \<Rightarrow> pval \<Rightarrow> plstate \<Rightarrow> pval outcome \<times> plstate" where
  "polyline_callback (Polyline_CreateEventObservable_then eventName observer) l st =
     (case as_array l st of
        None \<Rightarrow> (Throw TypeError, st)
      | Some x \<Rightarrow>
          (Return VNothing,
           st\<lparr>pcalls := pcalls st @
                 map (\<lambda>line. Polyline_AddListener line eventName (Forward observer)) x\<rparr>))"
| "polyline_callback (DeletePolyline_then polyline) l st =
     (case as_array l st of
        None \<Rightarrow> (Throw TypeError, st)
      | Some x \<Rightarrow>
          (Return VNothing,
           st\<lparr>pcalls := pcalls st @ map Polyline_Delete x,
               polylines := (polylines st)(polyline := None)\<rparr>))"
| "polyline_callback (SetOptions_then options) l st =
     (case as_array l st of
        None \<Rightarrow> (Throw TypeError, st)
      | Some x \<Rightarrow>
          (Return VNothing,
           st\<lparr>pcalls := pcalls st @ map (\<lambda>line. Polyline_SetOptions line options) x\<rparr>))"
| "polyline_callback (UpdatePolyline_then polyline) l st =
     (case as_array l st of
        None \<Rightarrow> (Throw TypeError, st)
      | Some x \<Rightarrow>
          (let p = normalize_path (Path (polyline_objs st polyline));
               st1 = st\<lparr>pcalls := pcalls st @ forEach_SetPath x 0 p\<rparr>
           in case l of
                VLines a \<Rightarrow>
                  (if length (arrays st1 a) > length p
                   then (let (removed, rest) = splice (int (length p) - 1) (arrays st1 a)
                         in (Return VNothing,
                             st1\<lparr>arrays := (arrays st1)(a := rest),
                                 pcalls := pcalls st1 @ map Polyline_Delete removed\<rparr>))
                   else (Return VNothing, st1))
              | _ \<Rightarrow> (Return VNothing, st1)))"
| "polyline_callback Polyline_Identity_then l st = (Return l, st)"

text \<open>
  For \<^verbatim>\<open>mousemove\<close> and \<^verbatim>\<open>rightclick\<close> the method returns the observable of a
  \<^verbatim>\<open>Subject\<close> that it has just made and that nothing else holds: a subscription to it
  reaches no one who could send.
\<close>

datatype pobservable = Subject_asObservable | Polyline_Observable_create string handle

definition Polyline_CreateEventObservable :: "string \<Rightarrow> handle \<Rightarrow> pobservable" where
  "Polyline_CreateEventObservable eventName polyline =
     (if eventName = ''mousemove'' then Subject_asObservable
      else if eventName = ''rightclick'' then Subject_asObservable
      else Polyline_Observable_create eventName polyline)"

fun Polyline_subscribe :: "pobservable \<Rightarrow> oid \<Rightarrow> plstate \<Rightarrow> error + plstate" where
  "Polyline_subscribe Subject_asObservable observer st = Inr st"
| "Polyline_subscribe (Polyline_Observable_create eventName polyline) observer st =
     (case polylines st polyline of
        None \<Rightarrow> Inl TypeError
      | Some p \<Rightarrow> Inr (snd (then_on p (Polyline_CreateEventObservable_then eventName observer) st)))"

definition DeletePolyline :: "handle \<Rightarrow> plstate \<Rightarrow> pid \<times> plstate" where
  "DeletePolyline polyline st =
     (case polylines st polyline of
        None \<Rightarrow> Promise_resolve VNothing st
      | Some m \<Rightarrow> then_on m (DeletePolyline_then polyline) st)"

definition Polyline_GetCoordinatesFromClick :: "IMouseEventArgs option \<Rightarrow> ILatLong option" where
  "Polyline_GetCoordinatesFromClick e =
     (case e of
        None \<Rightarrow> None
      | Some ev \<Rightarrow>
          (case location ev of
             None \<Rightarrow> None
           | Some loc \<Rightarrow> Some \<lparr>latitude = latitude loc, longitude = longitude loc\<rparr>))"


definition SetOptions :: "handle \<Rightarrow> IPolylineOptions \<Rightarrow> plstate \<Rightarrow> error + pid \<times> plstate" where
  "SetOptions polyline options st =
     (case polylines st polyline of
        None \<Rightarrow> Inl TypeError
      | Some p \<Rightarrow> Inr (then_on p (SetOptions_then options) st))"

definition UpdatePolyline :: "handle \<Rightarrow> plstate \<Rightarrow> pid \<times> plstate" where
  "UpdatePolyline polyline st =
     (case polylines st polyline of
        None \<Rightarrow> Promise_resolve VNothing st
      | Some m \<Rightarrow> then_on m (UpdatePolyline_then polyline) st)"

subsection \<open>Running the queue, and the world outside\<close>

definition Polyline_run_job :: "plstate \<Rightarrow> plstate" where
  "Polyline_run_job st =
     (case jobs st of
        [] \<Rightarrow> st
      | RejectJob q # js \<Rightarrow> settle q Rejected (st\<lparr>jobs := js\<rparr>)
      | ReactionJob k v q # js \<Rightarrow>
          (let (r, st1) = polyline_callback k v (st\<lparr>jobs := js\<rparr>)
           in finish Polyline_Identity_then q r st1))"

text \<open>
  Modelled from the spec: the native polyline (\<^verbatim>\<open>models/polyline\<close>, not among the
  sources), like the native marker, calls the listeners added under an event's name, in
  the order of registration, when it raises the event.
\<close>

fun Polyline_listeners_of :: "nid \<Rightarrow> string \<Rightarrow> pcall list \<Rightarrow> listener list" where
  "Polyline_listeners_of m eventName [] = []"
| "Polyline_listeners_of m eventName (Polyline_AddListener m' n l # cs) =
     (if m' = m \<and> n = eventName then l # Polyline_listeners_of m eventName cs
      else Polyline_listeners_of m eventName cs)"
| "Polyline_listeners_of m eventName (c # cs) = Polyline_listeners_of m eventName cs"

fun Polyline_run_listener :: "listener \<Rightarrow> ev \<Rightarrow> plstate \<Rightarrow> plstate" where
  "Polyline_run_listener (Forward observer) e st =
     st\<lparr>pcalls := pcalls st @ [Polyline_Observer_next observer e]\<rparr>"

definition Polyline_raise_event :: "nid \<Rightarrow> string \<Rightarrow> ev \<Rightarrow> plstate \<Rightarrow> plstate" where
  "Polyline_raise_event m eventName e st =
     foldl (\<lambda>s l. Polyline_run_listener l e s) st (Polyline_listeners_of m eventName (pcalls st))"

datatype pop =
    Call_AddPolyline handle
  | Call_Polyline_subscribe string handle oid
  | Call_DeletePolyline handle
  | Call_GetNativePolyline handle
  | Call_SetOptions handle IPolylineOptions
  | Call_UpdatePolyline handle
  | Polyline_Settle pid "pval pstate"
  | Polyline_RunJob
  | Polyline_RaiseEvent nid string ev
  | SetPolyline handle MapPolylineDirective
  | SetArray aref "nid list"

fun pstep :: "pop \<Rightarrow> plstate \<Rightarrow> plstate" where
  "pstep (Call_AddPolyline h) st = AddPolyline h st"
| "pstep (Call_Polyline_subscribe n h ob) st =
     (case Polyline_subscribe (Polyline_CreateEventObservable n h) ob st of
        Inl e \<Rightarrow> st | Inr st1 \<Rightarrow> st1)"
| "pstep (Call_DeletePolyline h) st = snd (DeletePolyline h st)"
| "pstep (Call_GetNativePolyline h) st = st"
| "pstep (Call_SetOptions h opts) st =
     (case SetOptions h opts st of Inl e \<Rightarrow> st | Inr (q, st1) \<Rightarrow> st1)"
| "pstep (Call_UpdatePolyline h) st = snd (UpdatePolyline h st)"
| "pstep (Polyline_Settle p s) st = settle p s st"
| "pstep Polyline_RunJob st = Polyline_run_job st"
| "pstep (Polyline_RaiseEvent m n e) st = Polyline_raise_event m n e st"
| "pstep (SetPolyline h pl) st = st\<lparr>polyline_objs := (polyline_objs st)(h := pl)\<rparr>"
| "pstep (SetArray a xs) st = st\<lparr>arrays := (arrays st)(a := xs)\<rparr>"

section \<open>Runs\<close>

text \<open>
  The services as their constructors leave them: an empty table, no promise, no call made,
  and no subscriber of \<^verbatim>\<open>DynamicMarkerCreated\<close> yet.
\<close>

definition BingMarkerService_new ::
  "(handle \<Rightarrow> MapMarker) \<Rightarrow> (iref \<Rightarrow> IMarkerIconInfo) \<Rightarrow> mstate" where
  "BingMarkerService_new objs icons =
     \<lparr>pstates = Map.empty, reactions = [], jobs = [], next_pid = 0,
      markers = Map.empty, marker_objs = objs, icon_objs = icons,
      on_emit = (\<lambda>h i x. x), calls = []\<rparr>"

definition BingPolylineService_new ::
  "(handle \<Rightarrow> MapPolylineDirective) \<Rightarrow> (aref \<Rightarrow> nid list) \<Rightarrow> plstate" where
  "BingPolylineService_new objs arrs =
     \<lparr>pstates = Map.empty, reactions = [], jobs = [], next_pid = 0,
      polylines = Map.empty, polyline_objs = objs, arrays = arrs, pcalls = []\<rparr>"

text \<open>Running the first \<open>n\<close> jobs of the queue, and a sequence of steps of the world.\<close>

fun run_jobs :: "nat \<Rightarrow> mstate \<Rightarrow> mstate" where
  "run_jobs 0 st = st"
| "run_jobs (Suc n) st = run_jobs n (run_job st)"

fun Polyline_run_jobs :: "nat \<Rightarrow> plstate \<Rightarrow> plstate" where
  "Polyline_run_jobs 0 st = st"
| "Polyline_run_jobs (Suc n) st = Polyline_run_jobs n (Polyline_run_job st)"

definition mrun :: "mop list \<Rightarrow> mstate \<Rightarrow> mstate" where
  "mrun ops st = foldl (\<lambda>s op. mstep op s) st ops"

definition prun :: "pop list \<Rightarrow> plstate \<Rightarrow> plstate" where
  "prun ops st = foldl (\<lambda>s op. pstep op s) st ops"

text \<open>
  The state in which the job queued last is the next to run: every job before it has run.
\<close>

definition before_last_job :: "mstate \<Rightarrow> mstate" where
  "before_last_job st = run_jobs (length (jobs st) - 1) st"

definition Polyline_before_last_job :: "plstate \<Rightarrow> plstate" where
  "Polyline_before_last_job st = Polyline_run_jobs (length (jobs st) - 1) st"

text \<open>
  The heap hands out the promises in order: no promise from \<open>next_pid\<close> on is in use.
\<close>

definition heap_ok :: "('v, 'k, 'z) promise_heap_scheme \<Rightarrow> bool" where
  "heap_ok st = (\<forall>q. next_pid st \<le> q \<longrightarrow> pstates st q = None)"

text \<open>
  A callback with the property \<open>P\<close> waits for its promise or is queued.
\<close>

definition job_has :: "('k \<Rightarrow> bool) \<Rightarrow> ('v, 'k) job \<Rightarrow> bool" where
  "job_has P j = (case j of ReactionJob k v q \<Rightarrow> P k | RejectJob q \<Rightarrow> False)"

definition awaits :: "('k \<Rightarrow> bool) \<Rightarrow> ('v, 'k, 'z) promise_heap_scheme \<Rightarrow> bool" where
  "awaits P st = (list_ex (\<lambda>r. P (fst (snd r))) (reactions st) \<or> list_ex (job_has P) (jobs st))"

text \<open>A deletion of the handle \<open>h\<close> is under way.\<close>

definition delete_pending :: "handle \<Rightarrow> mstate \<Rightarrow> bool" where
  "delete_pending h st = awaits (\<lambda>k. k = DeleteMarker_then h) st"

definition Polyline_delete_pending :: "handle \<Rightarrow> plstate \<Rightarrow> bool" where
  "Polyline_delete_pending h st = awaits (\<lambda>k. k = DeletePolyline_then h) st"

text \<open>
  The observer \<open>ob\<close> is wired to a native polyline, or will be: a listener that forwards
  to it has been added, or a callback that will add one waits or is queued.  Such a
  callback comes from a subscription to the observable of an event other than
  \<^verbatim>\<open>mousemove\<close> and \<^verbatim>\<open>rightclick\<close>.  \<open>received\<close> are the events handed to \<open>ob\<close>.
\<close>

definition listens :: "oid \<Rightarrow> pcall \<Rightarrow> bool" where
  "listens ob c = (case c of Polyline_AddListener n e l \<Rightarrow> l = Forward ob | _ \<Rightarrow> False)"

definition will_listen :: "oid \<Rightarrow> pcont \<Rightarrow> bool" where
  "will_listen ob k = (case k of Polyline_CreateEventObservable_then n ob' \<Rightarrow> ob' = ob | _ \<Rightarrow> False)"

definition wired :: "oid \<Rightarrow> plstate \<Rightarrow> bool" where
  "wired ob st = (list_ex (listens ob) (pcalls st) \<or> awaits (will_listen ob) st)"

definition supported_subscription :: "oid \<Rightarrow> pop \<Rightarrow> bool" where
  "supported_subscription ob op =
     (case op of
        Call_Polyline_subscribe n h ob' \<Rightarrow> ob' = ob \<and> n \<noteq> ''mousemove'' \<and> n \<noteq> ''rightclick''
      | _ \<Rightarrow> False)"

fun received :: "oid \<Rightarrow> pcall list \<Rightarrow> ev list" where
  "received ob [] = []"
| "received ob (Polyline_Observer_next ob' e # cs) =
     (if ob' = ob then e # received ob cs else received ob cs)"
| "received ob (c # cs) = received ob cs"

text \<open>
  A marker outside every layer and a polyline of two segments, and the services after
  the one has been added as marker 7 and the other as polyline 1: the creation promise is
  promise 0 and is pending.  In \<open>three_lines\<close> the map service has answered with an
  array of three native polylines.
\<close>

definition a_marker :: MapMarker where
  "a_marker =
     \<lparr>Latitude = 47, Longitude = 8, Title = Some ''a'', Label = None, Draggable = True,
      IconUrl = None, IconInfo = None, Width = None, Height = None, Anchor = None,
      Metadata = None, InClusterLayer = False, InCustomLayer = False, LayerId = 0\<rparr>"

definition a_polyline :: MapPolylineDirective where
  "a_polyline =
     \<lparr>Id = 1, Clickable = True, Draggable = False, Editable = False, Geodesic = False,
      Path = Nested [ [\<lparr>latitude = 0, longitude = 0\<rparr>, \<lparr>latitude = 1, longitude = 1\<rparr>],
                     [\<lparr>latitude = 2, longitude = 2\<rparr>, \<lparr>latitude = 3, longitude = 3\<rparr>]],
      ShowTooltip = False, StrokeColor = None, StrokeOpacity = None, StrokeWeight = None,
      Title = None, Visible = True, zIndex = None, InCustomLayer = False, LayerId = 0\<rparr>"

definition no_icons :: "iref \<Rightarrow> IMarkerIconInfo" where
  "no_icons r = \<lparr>icon_size = None, markerOffsetRatio = None\<rparr>"

definition one_marker :: mstate where
  "one_marker = AddMarker 7 (BingMarkerService_new (\<lambda>h. a_marker) no_icons)"

definition one_polyline :: plstate where
  "one_polyline = AddPolyline 1 (BingPolylineService_new (\<lambda>h. a_polyline) (\<lambda>a. []))"

definition three_lines :: plstate where
  "three_lines = prun [SetArray 5 [10, 11, 12], Polyline_Settle 0 (Fulfilled (VLines 5))] one_polyline"

section \<open>Creation\<close>

text \<open>
  C3.  \<^verbatim>\<open>AddMarker\<close> and \<^verbatim>\<open>AddPolyline\<close> build one options object from the
  handle's properties of the moment and make exactly one creation call: for a marker
  in a cluster layer the cluster service's \<^verbatim>\<open>CreateMarker(LayerId, o)\<close>, otherwise in a
  custom layer the layer service's, otherwise the map service's \<^verbatim>\<open>CreateMarker(o)\<close>;
  for a polyline in a custom layer the layer service's \<^verbatim>\<open>CreatePolyline(LayerId, o)\<close>,
  otherwise the map service's \<^verbatim>\<open>CreatePolyline(o)\<close>.  The promise that the call
  returns is stored in the table under the handle.  The options of a marker are its
  position, title, label, draggable flag, icon and icon information, and its width, height,
  anchor and metadata where these are truthy; the options of a polyline are its thirteen
  properties.
\<close>

theorem AddMarker_AddPolyline_creation:
  "calls (AddMarker marker st) = calls st @
      [if InClusterLayer (marker_objs st marker)
       then ClusterService_CreateMarker (MapMarker.LayerId (marker_objs st marker))
              (marker_options (marker_objs st marker)) (next_pid st)
       else if MapMarker.InCustomLayer (marker_objs st marker)
       then LayerService_CreateMarker (MapMarker.LayerId (marker_objs st marker))
              (marker_options (marker_objs st marker)) (next_pid st)
       else MapService_CreateMarker (marker_options (marker_objs st marker)) (next_pid st)]
   \<and> marker_options mk =
       \<lparr>position = \<lparr>latitude = Latitude mk, longitude = Longitude mk\<rparr>,
        IMarkerOptions.title = MapMarker.Title mk,
        label = Label mk,
        IMarkerOptions.draggable = Some (MapMarker.Draggable mk),
        icon = IconUrl mk,
        iconInfo = IconInfo mk,
        IMarkerOptions.width = (if Width mk = None \<or> Width mk = Some 0 then None else Width mk),
        IMarkerOptions.height = (if Height mk = None \<or> Height mk = Some 0 then None else Height mk),
        anchor = Anchor mk,
        metadata = Metadata mk\<rparr>
   \<and> markers (AddMarker marker st) = (markers st)(marker \<mapsto> next_pid st)
   \<and> pcalls (AddPolyline polyline pst) = pcalls pst @
      [if MapPolylineDirective.InCustomLayer (polyline_objs pst polyline)
       then LayerService_CreatePolyline (MapPolylineDirective.LayerId (polyline_objs pst polyline))
              (polyline_options (polyline_objs pst polyline)) (next_pid pst)
       else MapService_CreatePolyline (polyline_options (polyline_objs pst polyline)) (next_pid pst)]
   \<and> polyline_options pl =
       \<lparr>polyline_id = Some (Id pl),
        clickable = Some (Clickable pl),
        draggable = Some (MapPolylineDirective.Draggable pl),
        editable = Some (Editable pl),
        geodesic = Some (Geodesic pl),
        path = Some (Path pl),
        showTooltip = Some (ShowTooltip pl),
        strokeColor = StrokeColor pl,
        strokeOpacity = StrokeOpacity pl,
        strokeWeight = StrokeWeight pl,
        title = MapPolylineDirective.Title pl,
        visible = Some (Visible pl),
        zIndex = MapPolylineDirective.zIndex pl\<rparr>
   \<and> polylines (AddPolyline polyline pst) = (polylines pst)(polyline \<mapsto> next_pid pst)"
proof (intro conjI)
  show "marker_options mk =
       \<lparr>position = \<lparr>latitude = Latitude mk, longitude = Longitude mk\<rparr>,
        IMarkerOptions.title = MapMarker.Title mk,
        label = Label mk,
        IMarkerOptions.draggable = Some (MapMarker.Draggable mk),
        icon = IconUrl mk,
        iconInfo = IconInfo mk,
        IMarkerOptions.width = (if Width mk = None \<or> Width mk = Some 0 then None else Width mk),
        IMarkerOptions.height = (if Height mk = None \<or> Height mk = Some 0 then None else Height mk),
        anchor = Anchor mk,
        metadata = Metadata mk\<rparr>"
    by (cases "Width mk"; cases "Height mk"; cases "Anchor mk"; cases "Metadata mk")
       (simp_all add: marker_options_def truthy_num_def Let_def)
  show "polyline_options pl =
       \<lparr>polyline_id = Some (Id pl),
        clickable = Some (Clickable pl),
        draggable = Some (MapPolylineDirective.Draggable pl),
        editable = Some (Editable pl),
        geodesic = Some (Geodesic pl),
        path = Some (Path pl),
        showTooltip = Some (ShowTooltip pl),
        strokeColor = StrokeColor pl,
        strokeOpacity = StrokeOpacity pl,
        strokeWeight = StrokeWeight pl,
        title = MapPolylineDirective.Title pl,
        visible = Some (Visible pl),
        zIndex = MapPolylineDirective.zIndex pl\<rparr>"
    by (simp add: polyline_options_def)
qed (simp_all add: AddMarker_def create_call_def then_on_def attach_def AddPolyline_def
       Polyline_create_call_def new_promise_def Let_def split: option.splits pstate.splits)

section \<open>Clicks\<close>

text \<open>
  C10.  \<^verbatim>\<open>GetCoordinatesFromClick\<close> returns null when there is no event, when the
  event has no primitive (marker service) or no location (polyline service), and when the
  primitive is no pushpin; otherwise it returns the latitude and longitude of the clicked
  object.  \<^verbatim>\<open>GetPixelsFromClick\<close> of the marker service returns null when
  \<^verbatim>\<open>GetCoordinatesFromClick\<close> does for the same event, and when the translation to a
  pixel returns null.
\<close>

theorem click_coordinates:
  "GetCoordinatesFromClick None = None
   \<and> (primitive eA = None \<longrightarrow> GetCoordinatesFromClick (Some eA) = None)
   \<and> (primitive eB = Some OtherShape \<longrightarrow> GetCoordinatesFromClick (Some eB) = None)
   \<and> (primitive eC = Some (Pushpin loc) \<longrightarrow>
        GetCoordinatesFromClick (Some eC) = Some \<lparr>latitude = latitude loc, longitude = longitude loc\<rparr>)
   \<and> Polyline_GetCoordinatesFromClick None = None
   \<and> (location eD = None \<longrightarrow> Polyline_GetCoordinatesFromClick (Some eD) = None)
   \<and> (location eE = Some l \<longrightarrow>
        Polyline_GetCoordinatesFromClick (Some eE) = Some \<lparr>latitude = latitude l, longitude = longitude l\<rparr>)
   \<and> (GetCoordinatesFromClick eF = None \<longrightarrow> GetPixelsFromClick translate toPixel eF = None)
   \<and> (GetCoordinatesFromClick eG = Some c \<and> toPixelG (translateG c) = None \<longrightarrow>
        GetPixelsFromClick translateG toPixelG eG = None)
   \<and> (GetCoordinatesFromClick eH = Some d \<and> toPixelH (translateH d) = Some px \<longrightarrow>
        GetPixelsFromClick translateH toPixelH eH = Some \<lparr>pt_x = pt_x px, pt_y = pt_y px\<rparr>)"
  by (simp add: GetCoordinatesFromClick_def Polyline_GetCoordinatesFromClick_def GetPixelsFromClick_def)

theorem click_coordinates_witness:
  "primitive \<lparr>primitive = None, location = None\<rparr> = None
   \<and> GetCoordinatesFromClick (Some \<lparr>primitive = None, location = None\<rparr>) = None
   \<and> primitive \<lparr>primitive = Some OtherShape, location = None\<rparr> = Some OtherShape
   \<and> GetCoordinatesFromClick (Some \<lparr>primitive = Some OtherShape, location = None\<rparr>) = None
   \<and> primitive \<lparr>primitive = Some (Pushpin \<lparr>latitude = 47, longitude = 8\<rparr>), location = None\<rparr>
        = Some (Pushpin \<lparr>latitude = 47, longitude = 8\<rparr>)
   \<and> GetCoordinatesFromClick
        (Some \<lparr>primitive = Some (Pushpin \<lparr>latitude = 47, longitude = 8\<rparr>), location = None\<rparr>)
        = Some \<lparr>latitude = 47, longitude = 8\<rparr>
   \<and> Polyline_GetCoordinatesFromClick (Some \<lparr>primitive = None, location = None\<rparr>) = None
   \<and> Polyline_GetCoordinatesFromClick
        (Some \<lparr>primitive = None, location = Some \<lparr>latitude = 1, longitude = 2\<rparr>\<rparr>)
        = Some \<lparr>latitude = 1, longitude = 2\<rparr>
   \<and> GetCoordinatesFromClick (Some \<lparr>primitive = Some OtherShape, location = None\<rparr>) = None
   \<and> GetPixelsFromClick (\<lambda>c. c) (\<lambda>c. Some \<lparr>pt_x = 3, pt_y = 4\<rparr>)
        (Some \<lparr>primitive = Some OtherShape, location = None\<rparr>) = None
   \<and> GetPixelsFromClick (\<lambda>c. c) (\<lambda>c. None)
        (Some \<lparr>primitive = Some (Pushpin \<lparr>latitude = 47, longitude = 8\<rparr>), location = None\<rparr>) = None
   \<and> GetPixelsFromClick (\<lambda>c. c) (\<lambda>c. Some \<lparr>pt_x = latitude c, pt_y = longitude c\<rparr>)
        (Some \<lparr>primitive = Some (Pushpin \<lparr>latitude = 47, longitude = 8\<rparr>), location = None\<rparr>)
        = Some \<lparr>pt_x = 47, pt_y = 8\<rparr>"
  using click_coordinates
    [where eA = "\<lparr>primitive = None, location = None\<rparr>"
       and eB = "\<lparr>primitive = Some OtherShape, location = None\<rparr>"
       and eC = "\<lparr>primitive = Some (Pushpin \<lparr>latitude = 47, longitude = 8\<rparr>), location = None\<rparr>"
       and loc = "\<lparr>latitude = 47, longitude = 8\<rparr>"
       and eD = "\<lparr>primitive = None, location = None\<rparr>"
       and eE = "\<lparr>primitive = None, location = Some \<lparr>latitude = 1, longitude = 2\<rparr>\<rparr>"
       and l = "\<lparr>latitude = 1, longitude = 2\<rparr>"
       and eF = "Some \<lparr>primitive = Some OtherShape, location = None\<rparr>"
       and translate = "\<lambda>c. c" and toPixel = "\<lambda>c. Some \<lparr>pt_x = 3, pt_y = 4\<rparr>"
       and eG = "Some \<lparr>primitive = Some (Pushpin \<lparr>latitude = 47, longitude = 8\<rparr>), location = None\<rparr>"
       and c = "\<lparr>latitude = 47, longitude = 8\<rparr>"
       and translateG = "\<lambda>c. c" and toPixelG = "\<lambda>c. None"
       and eH = "Some \<lparr>primitive = Some (Pushpin \<lparr>latitude = 47, longitude = 8\<rparr>), location = None\<rparr>"
       and d = "\<lparr>latitude = 47, longitude = 8\<rparr>"
       and translateH = "\<lambda>c. c" and toPixelH = "\<lambda>c. Some \<lparr>pt_x = latitude c, pt_y = longitude c\<rparr>"
       and px = "\<lparr>pt_x = 47, pt_y = 8\<rparr>"]
  by (simp add: GetCoordinatesFromClick_def)

section \<open>Handles without an entry\<close>

text \<open>
  C1.  The claim: every changing operation on a handle without an entry in the table does
  nothing and ends without an error.  On a service just made, where no handle has an
  entry, the six updates of a marker and \<^verbatim>\<open>SetOptions\<close> of a polyline throw: they call
  \<^verbatim>\<open>then\<close> on the \<^verbatim>\<open>undefined\<close> that the table returns.
\<close>

theorem update_without_entry_throws:
  "UpdateAnchor h (BingMarkerService_new objs icons) = Inl TypeError
   \<and> UpdateMarkerPosition h (BingMarkerService_new objs icons) = Inl TypeError
   \<and> UpdateTitle h (BingMarkerService_new objs icons) = Inl TypeError
   \<and> UpdateLabel h (BingMarkerService_new objs icons) = Inl TypeError
   \<and> UpdateDraggable h (BingMarkerService_new objs icons) = Inl TypeError
   \<and> UpdateIcon h (BingMarkerService_new objs icons) = Inl TypeError
   \<and> SetOptions h opts (BingPolylineService_new pobjs arrs) = Inl TypeError"
  by (simp add: UpdateAnchor_def UpdateMarkerPosition_def UpdateTitle_def UpdateLabel_def
        UpdateDraggable_def UpdateIcon_def SetOptions_def BingMarkerService_new_def
        BingPolylineService_new_def)

section \<open>Waiting for the creation promise\<close>

subsection \<open>The queue of the marker service\<close>

lemma jobs_settle: "\<exists>extra. jobs (settle p s st) = jobs st @ extra"
  by (simp add: settle_def)

lemma jobs_attach: "\<exists>extra. jobs (attach p k q st) = jobs st @ extra"
  by (simp add: attach_def split: option.splits pstate.splits)

lemma jobs_finish: "\<exists>extra. jobs (finish idk q r st) = jobs st @ extra"
  by (cases r) (simp_all add: finish_def jobs_settle jobs_attach)

lemma jobs_marker_callback: "jobs (snd (marker_callback k v st)) = jobs st"
  by (cases k; cases v)
     (simp_all add: Let_def create_call_def emit_def new_promise_def split: option.splits prod.splits)



lemma calls_finish: "calls (finish idk q r st) = calls st"
  by (cases r) (simp_all add: finish_def settle_def attach_def split: option.splits pstate.splits)

lemma markers_finish: "markers (finish idk q r st) = markers st"
  by (cases r) (simp_all add: finish_def settle_def attach_def split: option.splits pstate.splits)

lemma run_job_reaction:
  "jobs st = ReactionJob k v q # js \<Longrightarrow>
   run_job st = finish Identity_then q (fst (marker_callback k v (st\<lparr>jobs := js\<rparr>)))
                  (snd (marker_callback k v (st\<lparr>jobs := js\<rparr>)))"
  by (simp add: run_job_def split: prod.splits)

lemma jobs_run_job: "jobs st = j # js \<Longrightarrow> \<exists>extra. jobs (run_job st) = js @ extra"
proof (cases j)
  case (ReactionJob k v q)
  assume "jobs st = j # js"
  with ReactionJob have r: "jobs st = ReactionJob k v q # js" by simp
  show ?thesis
    using jobs_finish [of Identity_then q "fst (marker_callback k v (st\<lparr>jobs := js\<rparr>))"
             "snd (marker_callback k v (st\<lparr>jobs := js\<rparr>))"]
    by (simp add: run_job_reaction [OF r] jobs_marker_callback)
next
  case (RejectJob q)
  assume "jobs st = j # js"
  with RejectJob have "run_job st = settle q Rejected (st\<lparr>jobs := js\<rparr>)"
    by (simp add: run_job_def)
  then show ?thesis
    using jobs_settle [of q Rejected "st\<lparr>jobs := js\<rparr>"] by simp
qed


lemma job_reached:
  "jobs st = js @ j # rest \<Longrightarrow> \<exists>extra. jobs (run_jobs (length js) st) = j # rest @ extra"
proof (induction js arbitrary: st rest)
  case Nil
  then show ?case by simp
next
  case (Cons a js)
  then have "jobs st = a # (js @ j # rest)" by simp
  from jobs_run_job [OF this] obtain e1 where e1: "jobs (run_job st) = js @ j # (rest @ e1)"
    by auto
  from Cons.IH [OF e1] show ?case by auto
qed


lemma before_last_job_head:
  assumes "jobs st = js @ [j]"
  shows "\<exists>extra. jobs (before_last_job st) = j # extra"
  using job_reached [of st js j "[]"] assms by (simp add: before_last_job_def)


text \<open>A callback attached to a promise that is pending or fulfilled is the last job of the
  queue once the promise is fulfilled.\<close>

lemma then_on_pair: "then_on p k st = (next_pid st, snd (then_on p k st))"
  by (simp add: then_on_def new_promise_def)

lemma then_settle_last:
  assumes "pstates st p = Some Pending \<or> pstates st p = Some (Fulfilled v)"
    and "pstates st (next_pid st) = None"
    and "pstates st1 = pstates (snd (then_on p k st))"
    and "reactions st1 = reactions (snd (then_on p k st))"
    and "jobs st1 = jobs (snd (then_on p k st))"
  shows "\<exists>js. jobs (settle p (Fulfilled v) st1) = js @ [ReactionJob k v (next_pid st)]"
proof -
  from assms(1,2) have ne: "p \<noteq> next_pid st" by auto
  from assms(1) show ?thesis
  proof
    assume "pstates st p = Some Pending"
    with ne assms(3-5) show ?thesis
      by (simp add: settle_def then_on_def new_promise_def attach_def job_of_def)
  next
    assume "pstates st p = Some (Fulfilled v)"
    with ne assms(3-5) show ?thesis
      by (simp add: settle_def then_on_def new_promise_def attach_def)
  qed
qed



lemma awaited:
  assumes "pstates st p = Some Pending \<or> pstates st p = Some (Fulfilled v)"
    and "pstates st (next_pid st) = None"
  shows "\<exists>js. jobs (before_last_job (settle p (Fulfilled v)
                  ((snd (then_on p k st))\<lparr>marker_objs := objs\<rparr>)))
              = ReactionJob k v (next_pid st) # js"
proof -
  obtain js where
    "jobs (settle p (Fulfilled v) ((snd (then_on p k st))\<lparr>marker_objs := objs\<rparr>))
       = js @ [ReactionJob k v (next_pid st)]"
    using then_settle_last [OF assms(1,2), of "(snd (then_on p k st))\<lparr>marker_objs := objs\<rparr>" k]
    by auto
  from before_last_job_head [OF this] show ?thesis .
qed


lemma calls_then_on: "calls (snd (then_on p k st)) = calls st"
  by (simp add: then_on_def new_promise_def attach_def split: option.splits pstate.splits)

lemma markers_then_on: "markers (snd (then_on p k st)) = markers st"
  by (simp add: then_on_def new_promise_def attach_def split: option.splits pstate.splits)

lemma calls_run_job_reaction:
  "jobs st = ReactionJob k v q # js \<Longrightarrow>
   calls (run_job st) = calls (snd (marker_callback k v (st\<lparr>jobs := js\<rparr>)))"
  by (simp add: run_job_reaction calls_finish)

lemma markers_run_job_reaction:
  "jobs st = ReactionJob k v q # js \<Longrightarrow>
   markers (run_job st) = markers (snd (marker_callback k v (st\<lparr>jobs := js\<rparr>)))"
  by (simp add: run_job_reaction markers_finish)




subsection \<open>The queue of the polyline service\<close>

lemma jobs_polyline_callback: "jobs (snd (polyline_callback k l st)) = jobs st"
  by (cases k)
     (simp_all add: Let_def split: option.splits prod.splits pval.splits)

lemma pcalls_finish: "pcalls (finish idk q r st) = pcalls st"
  by (cases r) (simp_all add: finish_def settle_def attach_def split: option.splits pstate.splits)

lemma polylines_finish: "polylines (finish idk q r st) = polylines st"
  by (cases r) (simp_all add: finish_def settle_def attach_def split: option.splits pstate.splits)

lemma arrays_finish: "arrays (finish idk q r st) = arrays st"
  by (cases r) (simp_all add: finish_def settle_def attach_def split: option.splits pstate.splits)

lemma Polyline_run_job_reaction:
  "jobs st = ReactionJob k v q # js \<Longrightarrow>
   Polyline_run_job st
     = finish Polyline_Identity_then q (fst (polyline_callback k v (st\<lparr>jobs := js\<rparr>)))
         (snd (polyline_callback k v (st\<lparr>jobs := js\<rparr>)))"
  by (simp add: Polyline_run_job_def split: prod.splits)

lemma jobs_Polyline_run_job:
  "jobs st = j # js \<Longrightarrow> \<exists>extra. jobs (Polyline_run_job st) = js @ extra"
proof (cases j)
  case (ReactionJob k v q)
  assume "jobs st = j # js"
  with ReactionJob have r: "jobs st = ReactionJob k v q # js" by simp
  show ?thesis
    using jobs_finish [of Polyline_Identity_then q "fst (polyline_callback k v (st\<lparr>jobs := js\<rparr>))"
             "snd (polyline_callback k v (st\<lparr>jobs := js\<rparr>))"]
    by (simp add: Polyline_run_job_reaction [OF r] jobs_polyline_callback)
next
  case (RejectJob q)
  assume "jobs st = j # js"
  with RejectJob have "Polyline_run_job st = settle q Rejected (st\<lparr>jobs := js\<rparr>)"
    by (simp add: Polyline_run_job_def)
  then show ?thesis
    using jobs_settle [of q Rejected "st\<lparr>jobs := js\<rparr>"] by simp
qed

lemma Polyline_job_reached:
  "jobs st = js @ j # rest \<Longrightarrow>
   \<exists>extra. jobs (Polyline_run_jobs (length js) st) = j # rest @ extra"
proof (induction js arbitrary: st rest)
  case Nil
  then show ?case by simp
next
  case (Cons a js)
  then have "jobs st = a # (js @ j # rest)" by simp
  from jobs_Polyline_run_job [OF this]
  obtain e1 where e1: "jobs (Polyline_run_job st) = js @ j # (rest @ e1)"
    by auto
  from Cons.IH [OF e1] show ?case by auto
qed

lemma Polyline_before_last_job_head:
  assumes "jobs st = js @ [j]"
  shows "\<exists>extra. jobs (Polyline_before_last_job st) = j # extra"
  using Polyline_job_reached [of st js j "[]"] assms by (simp add: Polyline_before_last_job_def)

lemma Polyline_awaited:
  assumes "pstates st p = Some Pending \<or> pstates st p = Some (Fulfilled v)"
    and "pstates st (next_pid st) = None"
  shows "\<exists>js. jobs (Polyline_before_last_job (settle p (Fulfilled v) (snd (then_on p k st))))
              = ReactionJob k v (next_pid st) # js"
proof -
  obtain js where
    "jobs (settle p (Fulfilled v) (snd (then_on p k st))) = js @ [ReactionJob k v (next_pid st)]"
    using then_settle_last [OF assms(1,2), of "snd (then_on p k st)" k]
    by auto
  from Polyline_before_last_job_head [OF this] show ?thesis .
qed

lemma pcalls_then_on: "pcalls (snd (then_on p k st)) = pcalls st"
  by (simp add: then_on_def new_promise_def attach_def split: option.splits pstate.splits)

lemma polylines_then_on: "polylines (snd (then_on p k st)) = polylines st"
  by (simp add: then_on_def new_promise_def attach_def split: option.splits pstate.splits)

lemma pcalls_run_job_reaction:
  "jobs st = ReactionJob k v q # js \<Longrightarrow>
   pcalls (Polyline_run_job st) = pcalls (snd (polyline_callback k v (st\<lparr>jobs := js\<rparr>)))"
  by (simp add: Polyline_run_job_reaction pcalls_finish)

lemma polylines_run_job_reaction:
  "jobs st = ReactionJob k v q # js \<Longrightarrow>
   polylines (Polyline_run_job st) = polylines (snd (polyline_callback k v (st\<lparr>jobs := js\<rparr>)))"
  by (simp add: Polyline_run_job_reaction polylines_finish)

lemma arrays_run_job_reaction:
  "jobs st = ReactionJob k v q # js \<Longrightarrow>
   arrays (Polyline_run_job st) = arrays (snd (polyline_callback k v (st\<lparr>jobs := js\<rparr>)))"
  by (simp add: Polyline_run_job_reaction arrays_finish)

lemma as_array_jobs [simp]: "as_array l (st\<lparr>jobs := js\<rparr>) = as_array l st"
  by (simp add: as_array_def split: pval.splits)


subsection \<open>The services with one handle added\<close>

lemma one_marker_facts:
  "markers one_marker 7 = Some 0"
  "pstates one_marker 0 = Some Pending"
  "next_pid one_marker = Suc 0"
  "pstates one_marker (Suc 0) = None"
  by (simp_all add: one_marker_def AddMarker_def BingMarkerService_new_def a_marker_def
        create_call_def new_promise_def Let_def)

lemma one_polyline_facts:
  "polylines one_polyline (Suc 0) = Some 0"
  "pstates one_polyline 0 = Some Pending"
  "next_pid one_polyline = Suc 0"
  "pstates one_polyline (Suc 0) = None"
  by (simp_all add: one_polyline_def AddPolyline_def BingPolylineService_new_def
        Polyline_create_call_def new_promise_def Let_def)

lemma three_lines_facts:
  "polylines three_lines (Suc 0) = Some 0"
  "pstates three_lines 0 = Some (Fulfilled (VLines 5))"
  "next_pid three_lines = Suc 0"
  "pstates three_lines (Suc 0) = None"
  "arrays three_lines 5 = [10, 11, 12]"
  by (simp_all add: three_lines_def prun_def settle_def one_polyline_def AddPolyline_def
        BingPolylineService_new_def Polyline_create_call_def new_promise_def Let_def)

section \<open>The promises of a run\<close>

text \<open>
  The theorems below about a callback suppose that the next promise of the heap is not in
  use.  That holds in every state that the services reach from their construction.
\<close>

lemma heap_ok_next: "heap_ok st \<Longrightarrow> pstates st (next_pid st) = None"
  by (simp add: heap_ok_def)

lemma heap_ok_new_promise: "heap_ok st \<Longrightarrow> heap_ok (snd (new_promise s st))"
  by (simp add: heap_ok_def new_promise_def)

lemma heap_ok_settle: "heap_ok st \<Longrightarrow> heap_ok (settle p s st)"
  by (auto simp: heap_ok_def settle_def)

lemma heap_ok_attach: "heap_ok st \<Longrightarrow> heap_ok (attach p k q st)"
  by (simp add: heap_ok_def attach_def split: option.splits pstate.splits)

lemma heap_ok_then_on: "heap_ok st \<Longrightarrow> heap_ok (snd (then_on p k st))"
  by (simp add: then_on_def case_prod_unfold Let_def heap_ok_attach heap_ok_new_promise)

lemma heap_ok_finish: "heap_ok st \<Longrightarrow> heap_ok (finish idk q r st)"
  by (cases r) (simp_all add: finish_def heap_ok_settle heap_ok_attach)

lemma heap_ok_marker_callback: "heap_ok st \<Longrightarrow> heap_ok (snd (marker_callback k v st))"
  by (cases k; cases v)
     (simp_all add: heap_ok_def Let_def create_call_def emit_def new_promise_def
        split: option.splits prod.splits)

lemma heap_ok_run_job: "heap_ok st \<Longrightarrow> heap_ok (run_job st)"
proof (cases "jobs st")
  case Nil
  assume "heap_ok st"
  with Nil show ?thesis by (simp add: run_job_def)
next
  case (Cons j js)
  assume "heap_ok st"
  then have ok: "heap_ok (st\<lparr>jobs := js\<rparr>)" by (simp add: heap_ok_def)
  show ?thesis
  proof (cases j)
    case (ReactionJob k v q)
    with Cons ok show ?thesis
      by (simp add: run_job_def case_prod_unfold Let_def heap_ok_finish heap_ok_marker_callback)
  next
    case (RejectJob q)
    with Cons ok show ?thesis by (simp add: run_job_def heap_ok_settle)
  qed
qed

lemma heap_ok_run_listeners: "heap_ok st \<Longrightarrow> heap_ok (foldl (\<lambda>s l. run_listener l e s) st ls)"
proof (induction ls arbitrary: st)
  case Nil
  then show ?case by simp
next
  case (Cons l ls)
  from Cons.prems have "heap_ok (run_listener l e st)" by (cases l) (simp add: heap_ok_def)
  with Cons.IH show ?case by simp
qed

lemma heap_ok_AddMarker: "heap_ok st \<Longrightarrow> heap_ok (AddMarker h st)"
  by (simp add: AddMarker_def create_call_def then_on_def attach_def new_promise_def Let_def
        heap_ok_def split: option.splits pstate.splits)

lemma heap_ok_mstep: "heap_ok st \<Longrightarrow> heap_ok (mstep op st)"
proof (cases op)
  case (Call_DeleteMarker h)
  assume "heap_ok st"
  with Call_DeleteMarker show ?thesis
    by (simp add: DeleteMarker_def Promise_resolve_def heap_ok_new_promise heap_ok_then_on
          split: option.splits)
next
  case (SetMarker h mk)
  assume "heap_ok st"
  with SetMarker show ?thesis by (simp add: heap_ok_def)
next
  case (SetIconInfo r i)
  assume "heap_ok st"
  with SetIconInfo show ?thesis by (simp add: heap_ok_def)
next
  case (Subscribe_DynamicMarkerCreated f)
  assume "heap_ok st"
  with Subscribe_DynamicMarkerCreated show ?thesis by (simp add: heap_ok_def)
qed (simp_all add: heap_ok_AddMarker CreateEventObservable_def state_of_def LocationToPoint_def
       UpdateAnchor_def UpdateMarkerPosition_def UpdateTitle_def UpdateLabel_def UpdateDraggable_def
       UpdateIcon_def case_prod_unfold heap_ok_then_on heap_ok_settle heap_ok_run_job
       raise_event_def heap_ok_run_listeners split: option.splits)

lemma heap_ok_mrun: "heap_ok st \<Longrightarrow> heap_ok (mrun ops st)"
  unfolding mrun_def by (induction ops arbitrary: st) (simp_all add: heap_ok_mstep)

lemma heap_ok_BingMarkerService: "heap_ok (mrun ops (BingMarkerService_new objs icons))"
  by (rule heap_ok_mrun) (simp add: heap_ok_def BingMarkerService_new_def)

lemma heap_ok_polyline_callback: "heap_ok st \<Longrightarrow> heap_ok (snd (polyline_callback k l st))"
  by (cases k)
     (simp_all add: heap_ok_def Let_def split: option.splits prod.splits pval.splits)

lemma heap_ok_Polyline_run_job: "heap_ok st \<Longrightarrow> heap_ok (Polyline_run_job st)"
proof (cases "jobs st")
  case Nil
  assume "heap_ok st"
  with Nil show ?thesis by (simp add: Polyline_run_job_def)
next
  case (Cons j js)
  assume "heap_ok st"
  then have ok: "heap_ok (st\<lparr>jobs := js\<rparr>)" by (simp add: heap_ok_def)
  show ?thesis
  proof (cases j)
    case (ReactionJob k v q)
    with Cons ok show ?thesis
      by (simp add: Polyline_run_job_def case_prod_unfold Let_def heap_ok_finish heap_ok_polyline_callback)
  next
    case (RejectJob q)
    with Cons ok show ?thesis by (simp add: Polyline_run_job_def heap_ok_settle)
  qed
qed

lemma heap_ok_Polyline_run_listeners:
  "heap_ok st \<Longrightarrow> heap_ok (foldl (\<lambda>s l. Polyline_run_listener l e s) st ls)"
proof (induction ls arbitrary: st)
  case Nil
  then show ?case by simp
next
  case (Cons l ls)
  from Cons.prems have "heap_ok (Polyline_run_listener l e st)"
    by (cases l) (simp add: heap_ok_def)
  with Cons.IH show ?case by simp
qed

lemma heap_ok_pstep: "heap_ok st \<Longrightarrow> heap_ok (pstep op st)"
proof (cases op)
  case (Call_AddPolyline h)
  assume "heap_ok st"
  with Call_AddPolyline show ?thesis
    by (simp add: AddPolyline_def Polyline_create_call_def new_promise_def Let_def heap_ok_def)
next
  case (Call_Polyline_subscribe n h ob)
  assume "heap_ok st"
  with Call_Polyline_subscribe show ?thesis
    by (simp add: Polyline_CreateEventObservable_def heap_ok_then_on split: option.splits)
next
  case (Call_DeletePolyline h)
  assume "heap_ok st"
  with Call_DeletePolyline show ?thesis
    by (simp add: DeletePolyline_def Promise_resolve_def heap_ok_new_promise heap_ok_then_on
          split: option.splits)
next
  case (Call_UpdatePolyline h)
  assume "heap_ok st"
  with Call_UpdatePolyline show ?thesis
    by (simp add: UpdatePolyline_def Promise_resolve_def heap_ok_new_promise heap_ok_then_on
          split: option.splits)
next
  case (SetPolyline h pl)
  assume "heap_ok st"
  with SetPolyline show ?thesis by (simp add: heap_ok_def)
next
  case (SetArray a xs)
  assume "heap_ok st"
  with SetArray show ?thesis by (simp add: heap_ok_def)
qed (simp_all add: SetOptions_def case_prod_unfold heap_ok_then_on heap_ok_settle
       heap_ok_Polyline_run_job Polyline_raise_event_def heap_ok_Polyline_run_listeners
       split: option.splits)

lemma heap_ok_prun: "heap_ok st \<Longrightarrow> heap_ok (prun ops st)"
  unfolding prun_def by (induction ops arbitrary: st) (simp_all add: heap_ok_pstep)

lemma heap_ok_BingPolylineService: "heap_ok (prun ops (BingPolylineService_new objs arrs))"
  by (rule heap_ok_prun) (simp add: heap_ok_def BingPolylineService_new_def)

section \<open>Updates\<close>


section \<open>Deletion\<close>

lemma DeleteMarker_no_entry:
  "markers st marker = None \<Longrightarrow>
   DeleteMarker marker st =
     (next_pid st, st\<lparr>pstates := (pstates st)(next_pid st \<mapsto> Fulfilled VVoid),
                        next_pid := Suc (next_pid st)\<rparr>)"
  by (simp add: DeleteMarker_def Promise_resolve_def new_promise_def)

lemma DeleteMarker_entry:
  assumes "markers st marker = Some p"
    and p: "pstates st p = Some Pending \<or> pstates st p = Some (Fulfilled (VMarker m))"
    and new: "pstates st (next_pid st) = None"
  shows "\<exists>q st1. DeleteMarker marker st = (q, st1) \<and> calls st1 = calls st \<and> markers st1 = markers st \<and>
           (let st2 = before_last_job (settle p (Fulfilled (VMarker m)) st1)
            in calls (run_job st2) = calls st2 @ [Marker_DeleteMarker m] \<and>
               markers (run_job st2) = (markers st2)(marker := None))"
proof (intro exI conjI)
  let ?st1 = "snd (then_on p (DeleteMarker_then marker) st)"
  let ?st2 = "before_last_job (settle p (Fulfilled (VMarker m)) ?st1)"
  show "DeleteMarker marker st = (next_pid st, ?st1)"
    using assms(1) then_on_pair [of p "DeleteMarker_then marker" st] by (simp add: DeleteMarker_def)
  show "calls ?st1 = calls st" by (rule calls_then_on)
  show "markers ?st1 = markers st" by (rule markers_then_on)
  obtain js where js: "jobs ?st2 = ReactionJob (DeleteMarker_then marker) (VMarker m) (next_pid st) # js"
    using awaited [OF p new, where k = "DeleteMarker_then marker" and objs = "marker_objs ?st1"]
    by auto
  show "let st2 = ?st2
        in calls (run_job st2) = calls st2 @ [Marker_DeleteMarker m] \<and>
           markers (run_job st2) = (markers st2)(marker := None)"
    by (simp add: Let_def calls_run_job_reaction [OF js] markers_run_job_reaction [OF js])
qed

lemma DeletePolyline_no_entry:
  "polylines st polyline = None \<Longrightarrow>
   DeletePolyline polyline st =
     (next_pid st, st\<lparr>pstates := (pstates st)(next_pid st \<mapsto> Fulfilled VNothing),
                        next_pid := Suc (next_pid st)\<rparr>)"
  by (simp add: DeletePolyline_def Promise_resolve_def new_promise_def)

lemma DeletePolyline_entry:
  assumes "polylines st polyline = Some p"
    and p: "pstates st p = Some Pending \<or> pstates st p = Some (Fulfilled l)"
    and new: "pstates st (next_pid st) = None"
    and l: "l \<noteq> VNothing"
  shows "\<exists>q st1. DeletePolyline polyline st = (q, st1) \<and> pcalls st1 = pcalls st \<and>
           polylines st1 = polylines st \<and>
           (let st2 = Polyline_before_last_job (settle p (Fulfilled l) st1)
            in pcalls (Polyline_run_job st2)
                 = pcalls st2 @ map Polyline_Delete
                     (case l of VLine n \<Rightarrow> [n] | VLines a \<Rightarrow> arrays st2 a | VNothing \<Rightarrow> []) \<and>
               polylines (Polyline_run_job st2) = (polylines st2)(polyline := None))"
proof (intro exI conjI)
  let ?st1 = "snd (then_on p (DeletePolyline_then polyline) st)"
  let ?st2 = "Polyline_before_last_job (settle p (Fulfilled l) ?st1)"
  show "DeletePolyline polyline st = (next_pid st, ?st1)"
    using assms(1) then_on_pair [of p "DeletePolyline_then polyline" st]
    by (simp add: DeletePolyline_def)
  show "pcalls ?st1 = pcalls st" by (rule pcalls_then_on)
  show "polylines ?st1 = polylines st" by (rule polylines_then_on)
  obtain js where js: "jobs ?st2 = ReactionJob (DeletePolyline_then polyline) l (next_pid st) # js"
    using Polyline_awaited [OF p new, where k = "DeletePolyline_then polyline"] by auto
  show "let st2 = ?st2
        in pcalls (Polyline_run_job st2)
             = pcalls st2 @ map Polyline_Delete
                 (case l of VLine n \<Rightarrow> [n] | VLines a \<Rightarrow> arrays st2 a | VNothing \<Rightarrow> []) \<and>
           polylines (Polyline_run_job st2) = (polylines st2)(polyline := None)"
    using l js
    by (cases l)
       (simp_all add: Let_def pcalls_run_job_reaction polylines_run_job_reaction as_array_def)
qed

text \<open>
  C5.  \<^verbatim>\<open>DeleteMarker\<close> and \<^verbatim>\<open>DeletePolyline\<close> on a handle without an entry return
  a promise that is fulfilled already and change nothing else.  With an entry, once the
  creation promise holds the native object and the jobs queued before have run, the
  callback deletes the native marker, or the native polyline, or every element of the
  array of native polylines, and removes the handle's entry from the table.
\<close>

theorem delete_removes_native_objects:
  "(markers st marker = None \<longrightarrow>
      DeleteMarker marker st =
        (next_pid st, st\<lparr>pstates := (pstates st)(next_pid st \<mapsto> Fulfilled VVoid),
                              next_pid := Suc (next_pid st)\<rparr>))
   \<and> (markers st' marker' = Some p \<and>
      (pstates st' p = Some Pending \<or> pstates st' p = Some (Fulfilled (VMarker m))) \<and>
      pstates st' (next_pid st') = None \<longrightarrow>
      (\<exists>q st1. DeleteMarker marker' st' = (q, st1) \<and> calls st1 = calls st' \<and>
          markers st1 = markers st' \<and>
          (let st2 = before_last_job (settle p (Fulfilled (VMarker m)) st1)
           in calls (run_job st2) = calls st2 @ [Marker_DeleteMarker m] \<and>
              markers (run_job st2) = (markers st2)(marker' := None))))
   \<and> (polylines pst polyline = None \<longrightarrow>
      DeletePolyline polyline pst =
        (next_pid pst, pst\<lparr>pstates := (pstates pst)(next_pid pst \<mapsto> Fulfilled VNothing),
                               next_pid := Suc (next_pid pst)\<rparr>))
   \<and> (polylines pst' polyline' = Some pp \<and>
      (pstates pst' pp = Some Pending \<or> pstates pst' pp = Some (Fulfilled l)) \<and>
      pstates pst' (next_pid pst') = None \<and> l \<noteq> VNothing \<longrightarrow>
      (\<exists>q st1. DeletePolyline polyline' pst' = (q, st1) \<and> pcalls st1 = pcalls pst' \<and>
          polylines st1 = polylines pst' \<and>
          (let st2 = Polyline_before_last_job (settle pp (Fulfilled l) st1)
           in pcalls (Polyline_run_job st2)
                = pcalls st2 @ map Polyline_Delete
                    (case l of VLine n \<Rightarrow> [n] | VLines a \<Rightarrow> arrays st2 a | VNothing \<Rightarrow> []) \<and>
              polylines (Polyline_run_job st2) = (polylines st2)(polyline' := None))))"
  using DeleteMarker_no_entry [of st marker] DeleteMarker_entry [of st' marker' p m]
    DeletePolyline_no_entry [of pst polyline] DeletePolyline_entry [of pst' polyline' pp l]
  by blast

theorem delete_removes_native_objects_witness:
  "markers (BingMarkerService_new (\<lambda>h. a_marker) no_icons) 7 = None
   \<and> DeleteMarker 7 (BingMarkerService_new (\<lambda>h. a_marker) no_icons) =
        (next_pid (BingMarkerService_new (\<lambda>h. a_marker) no_icons), (BingMarkerService_new (\<lambda>h. a_marker) no_icons)\<lparr>pstates := (pstates (BingMarkerService_new (\<lambda>h. a_marker) no_icons))(next_pid (BingMarkerService_new (\<lambda>h. a_marker) no_icons) \<mapsto> Fulfilled VVoid),
                              next_pid := Suc (next_pid (BingMarkerService_new (\<lambda>h. a_marker) no_icons))\<rparr>)
   \<and> markers one_marker 7 = Some 0 \<and>
      (pstates one_marker 0 = Some Pending \<or> pstates one_marker 0 = Some (Fulfilled (VMarker 3))) \<and>
      pstates one_marker (next_pid one_marker) = None
   \<and> (\<exists>q st1. DeleteMarker 7 one_marker = (q, st1) \<and> calls st1 = calls one_marker \<and>
          markers st1 = markers one_marker \<and>
          (let st2 = before_last_job (settle 0 (Fulfilled (VMarker 3)) st1)
           in calls (run_job st2) = calls st2 @ [Marker_DeleteMarker 3] \<and>
              markers (run_job st2) = (markers st2)(7 := None)))
   \<and> polylines (BingPolylineService_new (\<lambda>h. a_polyline) (\<lambda>a. [])) 1 = None
   \<and> DeletePolyline 1 (BingPolylineService_new (\<lambda>h. a_polyline) (\<lambda>a. [])) =
        (next_pid (BingPolylineService_new (\<lambda>h. a_polyline) (\<lambda>a. [])), (BingPolylineService_new (\<lambda>h. a_polyline) (\<lambda>a. []))\<lparr>pstates := (pstates (BingPolylineService_new (\<lambda>h. a_polyline) (\<lambda>a. [])))(next_pid (BingPolylineService_new (\<lambda>h. a_polyline) (\<lambda>a. [])) \<mapsto> Fulfilled VNothing),
                               next_pid := Suc (next_pid (BingPolylineService_new (\<lambda>h. a_polyline) (\<lambda>a. [])))\<rparr>)
   \<and> polylines three_lines 1 = Some 0 \<and>
      (pstates three_lines 0 = Some Pending \<or> pstates three_lines 0 = Some (Fulfilled (VLines 5))) \<and>
      pstates three_lines (next_pid three_lines) = None \<and> (VLines 5) \<noteq> VNothing
   \<and> (\<exists>q st1. DeletePolyline 1 three_lines = (q, st1) \<and> pcalls st1 = pcalls three_lines \<and>
          polylines st1 = polylines three_lines \<and>
          (let st2 = Polyline_before_last_job (settle 0 (Fulfilled (VLines 5)) st1)
           in pcalls (Polyline_run_job st2)
                = pcalls st2 @ map Polyline_Delete
                    (case (VLines 5) of VLine n \<Rightarrow> [n] | VLines a \<Rightarrow> arrays st2 a | VNothing \<Rightarrow> []) \<and>
              polylines (Polyline_run_job st2) = (polylines st2)(1 := None)))"
proof -
  have a: "markers (BingMarkerService_new (\<lambda>h. a_marker) no_icons) 7 = None"
    by (simp add: BingMarkerService_new_def)
  have b: "markers one_marker 7 = Some 0 \<and>
      (pstates one_marker 0 = Some Pending \<or> pstates one_marker 0 = Some (Fulfilled (VMarker 3))) \<and>
      pstates one_marker (next_pid one_marker) = None"
    by (simp add: one_marker_facts)
  have c: "polylines (BingPolylineService_new (\<lambda>h. a_polyline) (\<lambda>a. [])) 1 = None"
    by (simp add: BingPolylineService_new_def)
  have d: "polylines three_lines 1 = Some 0 \<and>
      (pstates three_lines 0 = Some Pending \<or> pstates three_lines 0 = Some (Fulfilled (VLines 5))) \<and>
      pstates three_lines (next_pid three_lines) = None \<and> (VLines 5) \<noteq> VNothing"
    by (simp add: three_lines_facts)
  note t = delete_removes_native_objects [where st = "BingMarkerService_new (\<lambda>h. a_marker) no_icons" and marker = 7
      and st' = one_marker and marker' = 7 and p = 0 and m = 3
      and pst = "BingPolylineService_new (\<lambda>h. a_polyline) (\<lambda>a. [])" and polyline = 1
      and pst' = three_lines and polyline' = 1 and pp = 0 and l = "VLines 5"]
  from t a have a': "DeleteMarker 7 (BingMarkerService_new (\<lambda>h. a_marker) no_icons) =
        (next_pid (BingMarkerService_new (\<lambda>h. a_marker) no_icons), (BingMarkerService_new (\<lambda>h. a_marker) no_icons)\<lparr>pstates := (pstates (BingMarkerService_new (\<lambda>h. a_marker) no_icons))(next_pid (BingMarkerService_new (\<lambda>h. a_marker) no_icons) \<mapsto> Fulfilled VVoid),
                              next_pid := Suc (next_pid (BingMarkerService_new (\<lambda>h. a_marker) no_icons))\<rparr>)" by blast
  from t b have b': "(\<exists>q st1. DeleteMarker 7 one_marker = (q, st1) \<and> calls st1 = calls one_marker \<and>
          markers st1 = markers one_marker \<and>
          (let st2 = before_last_job (settle 0 (Fulfilled (VMarker 3)) st1)
           in calls (run_job st2) = calls st2 @ [Marker_DeleteMarker 3] \<and>
              markers (run_job st2) = (markers st2)(7 := None)))" by blast
  from t c have c': "DeletePolyline 1 (BingPolylineService_new (\<lambda>h. a_polyline) (\<lambda>a. [])) =
        (next_pid (BingPolylineService_new (\<lambda>h. a_polyline) (\<lambda>a. [])), (BingPolylineService_new (\<lambda>h. a_polyline) (\<lambda>a. []))\<lparr>pstates := (pstates (BingPolylineService_new (\<lambda>h. a_polyline) (\<lambda>a. [])))(next_pid (BingPolylineService_new (\<lambda>h. a_polyline) (\<lambda>a. [])) \<mapsto> Fulfilled VNothing),
                               next_pid := Suc (next_pid (BingPolylineService_new (\<lambda>h. a_polyline) (\<lambda>a. [])))\<rparr>)" by blast
  from t d have d': "(\<exists>q st1. DeletePolyline 1 three_lines = (q, st1) \<and> pcalls st1 = pcalls three_lines \<and>
          polylines st1 = polylines three_lines \<and>
          (let st2 = Polyline_before_last_job (settle 0 (Fulfilled (VLines 5)) st1)
           in pcalls (Polyline_run_job st2)
                = pcalls st2 @ map Polyline_Delete
                    (case (VLines 5) of VLine n \<Rightarrow> [n] | VLines a \<Rightarrow> arrays st2 a | VNothing \<Rightarrow> []) \<and>
              polylines (Polyline_run_job st2) = (polylines st2)(1 := None)))" by blast
  from a a' b b' c c' d d' show ?thesis by blast
qed
section \<open>Events of a marker\<close>











section \<open>The path of a polyline\<close>

lemma forEach_SetPath_zip:
  "forEach_SetPath x i p = map (\<lambda>(line, seg). Polyline_SetPath line seg) (zip x (drop i p))"
proof (induction x arbitrary: i)
  case Nil
  then show ?case by simp
next
  case (Cons line x)
  show ?case
  proof (cases "i < length p")
    case True
    then have "drop i p = p ! i # drop (Suc i) p" by (simp add: Cons_nth_drop_Suc)
    with True Cons show ?thesis by simp
  next
    case False
    with Cons show ?thesis by simp
  qed
qed

lemma length_normalize_path: "1 \<le> length (normalize_path pa)"
  by (cases pa) (auto simp: normalize_path_def Suc_le_eq)

lemma splice_from: "1 \<le> n \<Longrightarrow> n \<le> length xs \<Longrightarrow>
  splice (int n - 1) xs = (drop (n - 1) xs, take (n - 1) xs)"
  by (simp add: splice_def Let_def nat_diff_distrib' min_def)

lemma UpdatePolyline_then_lines:
  "polyline_callback (UpdatePolyline_then h) (VLines a) s =
     (Return VNothing,
      if length (normalize_path (Path (polyline_objs s h))) < length (arrays s a)
      then s\<lparr>arrays := (arrays s)
                 (a := take (length (normalize_path (Path (polyline_objs s h))) - 1) (arrays s a)),
              pcalls := pcalls s
                 @ map (\<lambda>(line, seg). Polyline_SetPath line seg)
                     (zip (arrays s a) (normalize_path (Path (polyline_objs s h))))
                 @ map Polyline_Delete
                     (drop (length (normalize_path (Path (polyline_objs s h))) - 1) (arrays s a))\<rparr>
      else s\<lparr>pcalls := pcalls s
                 @ map (\<lambda>(line, seg). Polyline_SetPath line seg)
                     (zip (arrays s a) (normalize_path (Path (polyline_objs s h))))\<rparr>)"
  using length_normalize_path [of "Path (polyline_objs s h)"]
  by (simp add: as_array_def Let_def forEach_SetPath_zip splice_from)

lemma UpdatePolyline_then_line:
  "polyline_callback (UpdatePolyline_then h) (VLine n) s =
     (Return VNothing,
      s\<lparr>pcalls := pcalls s @ [Polyline_SetPath n (hd (normalize_path (Path (polyline_objs s h))))]\<rparr>)"
  using length_normalize_path [of "Path (polyline_objs s h)"]
  by (cases "normalize_path (Path (polyline_objs s h))") (simp_all add: as_array_def Let_def)

lemma a_polyline_layer: "\<not> MapPolylineDirective.InCustomLayer a_polyline"
  by (simp add: a_polyline_def)

lemma pcalls_three_lines:
  "pcalls three_lines = [MapService_CreatePolyline (polyline_options a_polyline) 0]"
  by (simp add: three_lines_def prun_def settle_def one_polyline_def AddPolyline_def
        BingPolylineService_new_def Polyline_create_call_def new_promise_def Let_def
        a_polyline_layer)

text \<open>
  C8.  The claim: \<^verbatim>\<open>UpdatePolyline\<close> hands \<open>p[i]\<close> to every native polyline of index
  \<open>i < length p\<close>, and of an array longer than \<open>p\<close> it deletes and removes exactly
  the native polylines of index \<open>length p\<close> and more.  With the three native polylines
  10, 11, 12 and a path of two segments, polylines 10 and 11 get their segments, and
  then \<^verbatim>\<open>l.splice(p.length - 1)\<close> removes from index 1 on: polyline 11, which has just
  got its segment, is deleted with polyline 12, and the array is left with polyline 10.
\<close>

theorem UpdatePolyline_deletes_one_line_too_many:
  "pcalls (prun [Call_UpdatePolyline 1, Polyline_RunJob] three_lines)
     = pcalls three_lines @
       [Polyline_SetPath 10 [\<lparr>latitude = 0, longitude = 0\<rparr>, \<lparr>latitude = 1, longitude = 1\<rparr>],
        Polyline_SetPath 11 [\<lparr>latitude = 2, longitude = 2\<rparr>, \<lparr>latitude = 3, longitude = 3\<rparr>],
        Polyline_Delete 11, Polyline_Delete 12]
   \<and> arrays (prun [Call_UpdatePolyline 1, Polyline_RunJob] three_lines) 5 = [10]
   \<and> normalize_path (Path (polyline_objs three_lines 1))
       = [ [\<lparr>latitude = 0, longitude = 0\<rparr>, \<lparr>latitude = 1, longitude = 1\<rparr>],
          [\<lparr>latitude = 2, longitude = 2\<rparr>, \<lparr>latitude = 3, longitude = 3\<rparr>]]
   \<and> arrays three_lines 5 = [10, 11, 12]"
proof -
  have st: "three_lines =
      \<lparr>pstates = [0 \<mapsto> Fulfilled (VLines 5)], reactions = [], jobs = [], next_pid = 1,
       polylines = [1 \<mapsto> 0], polyline_objs = (\<lambda>h. a_polyline),
       arrays = (\<lambda>a. [])(5 := [10, 11, 12]),
       pcalls = [MapService_CreatePolyline (polyline_options a_polyline) 0]\<rparr>"
    by (simp add: three_lines_def prun_def settle_def one_polyline_def AddPolyline_def
        BingPolylineService_new_def Polyline_create_call_def new_promise_def Let_def
        a_polyline_layer)
  have p: "normalize_path (Path a_polyline)
       = [ [\<lparr>latitude = 0, longitude = 0\<rparr>, \<lparr>latitude = 1, longitude = 1\<rparr>],
          [\<lparr>latitude = 2, longitude = 2\<rparr>, \<lparr>latitude = 3, longitude = 3\<rparr>]]"
    by (simp add: normalize_path_def a_polyline_def)
  show ?thesis
    unfolding st
    by (simp add: prun_def UpdatePolyline_def then_on_def new_promise_def attach_def
          Polyline_run_job_def UpdatePolyline_then_lines finish_def settle_def p
          del: polyline_callback.simps)
qed
section \<open>The entries of the tables\<close>

subsection \<open>Which callbacks wait\<close>

lemma awaits_new_promise: "awaits P (snd (new_promise s st)) = awaits P st"
  by (simp add: awaits_def new_promise_def)

lemma awaits_attach: "awaits P (attach p k q st) \<Longrightarrow> awaits P st \<or> P k"
  by (auto simp: awaits_def attach_def job_has_def split: option.splits pstate.splits)

lemma awaits_then_on: "awaits P (snd (then_on p k st)) \<Longrightarrow> awaits P st \<or> P k"
  using awaits_attach [of P p k "next_pid st" "snd (new_promise Pending st)"]
  by (simp add: then_on_def awaits_new_promise split: prod.splits)
     (simp add: new_promise_def)

lemma awaits_settle: "awaits P (settle p s st) \<Longrightarrow> awaits P st"
  by (cases s)
     (fastforce simp: awaits_def settle_def job_has_def job_of_def list_ex_iff split: if_splits)+

lemma awaits_finish: "awaits P (finish idk q r st) \<Longrightarrow> awaits P st \<or> P idk"
  by (cases r) (auto simp: finish_def dest: awaits_settle awaits_attach)

lemma awaits_tail: "jobs st = j # js \<Longrightarrow> awaits P (st\<lparr>jobs := js\<rparr>) \<Longrightarrow> awaits P st"
  by (auto simp: awaits_def)

lemma awaits_head: "jobs st = ReactionJob k v q # js \<Longrightarrow> P k \<Longrightarrow> awaits P st"
  by (simp add: awaits_def job_has_def)

lemma awaits_marker_callback: "awaits P (snd (marker_callback k v st)) = awaits P st"
  by (cases k; cases v)
     (simp_all add: awaits_def Let_def create_call_def emit_def new_promise_def
        split: option.splits prod.splits)

lemma awaits_run_job: "awaits P (run_job st) \<Longrightarrow> awaits P st \<or> P Identity_then"
proof (cases "jobs st")
  case Nil
  assume "awaits P (run_job st)"
  with Nil show ?thesis by (simp add: run_job_def)
next
  case (Cons j js)
  assume a: "awaits P (run_job st)"
  show ?thesis
  proof (cases j)
    case (ReactionJob k v q)
    with Cons have r: "jobs st = ReactionJob k v q # js" by simp
    from a have "awaits P (snd (marker_callback k v (st\<lparr>jobs := js\<rparr>))) \<or> P Identity_then"
      unfolding run_job_reaction [OF r] by (rule awaits_finish)
    then have "awaits P (st\<lparr>jobs := js\<rparr>) \<or> P Identity_then"
      by (simp add: awaits_marker_callback)
    with r show ?thesis by (auto dest: awaits_tail)
  next
    case (RejectJob q)
    with Cons a have "awaits P (settle q Rejected (st\<lparr>jobs := js\<rparr>))"
      by (simp add: run_job_def)
    then have "awaits P (st\<lparr>jobs := js\<rparr>)" by (rule awaits_settle)
    with Cons show ?thesis by (auto dest: awaits_tail)
  qed
qed

lemma awaits_calls_run_listeners:
  "awaits P (foldl (\<lambda>s l. run_listener l e s) st ls) = awaits P st"
proof (induction ls arbitrary: st)
  case Nil
  then show ?case by simp
next
  case (Cons l ls)
  then show ?case by (cases l) (simp add: awaits_def)
qed

lemma awaits_create_call: "awaits P (snd (create_call c st)) = awaits P st"
  by (simp add: awaits_def create_call_def new_promise_def)

lemma awaits_markers_update: "awaits P (st\<lparr>markers := x\<rparr>) = awaits P st"
  by (simp add: awaits_def)

lemma awaits_AddMarker:
  "awaits P (AddMarker h st) \<Longrightarrow> awaits P st \<or> (\<exists>opts. P (AddMarker_then h opts))"
  by (auto simp: AddMarker_def Let_def case_prod_unfold awaits_markers_update awaits_create_call
        split: if_splits dest!: awaits_then_on)

lemma delete_pending_mstep:
  "delete_pending h (mstep op st) \<Longrightarrow> delete_pending h st \<or> op = Call_DeleteMarker h"
proof (cases op)
  case (Call_AddMarker h')
  assume "delete_pending h (mstep op st)"
  with Call_AddMarker show ?thesis
    by (auto simp: delete_pending_def dest!: awaits_AddMarker)
next
  case (Call_subscribe n h' ob)
  assume "delete_pending h (mstep op st)"
  with Call_subscribe show ?thesis
    by (auto simp: delete_pending_def CreateEventObservable_def split: option.splits
          dest!: awaits_then_on)
next
  case (Call_DeleteMarker h')
  assume "delete_pending h (mstep op st)"
  with Call_DeleteMarker show ?thesis
    by (auto simp: delete_pending_def DeleteMarker_def Promise_resolve_def awaits_new_promise
          split: option.splits dest!: awaits_then_on)
next
  case (Settle p s)
  assume "delete_pending h (mstep op st)"
  with Settle show ?thesis by (auto simp: delete_pending_def dest: awaits_settle)
next
  case RunJob
  assume "delete_pending h (mstep op st)"
  with RunJob show ?thesis by (auto simp: delete_pending_def dest: awaits_run_job)
next
  case (RaiseEvent m n e)
  assume "delete_pending h (mstep op st)"
  with RaiseEvent show ?thesis
    by (simp add: delete_pending_def raise_event_def awaits_calls_run_listeners)
next
  case (SetMarker h' mk)
  assume "delete_pending h (mstep op st)"
  with SetMarker show ?thesis by (simp add: delete_pending_def awaits_def)
next
  case (SetIconInfo r i)
  assume "delete_pending h (mstep op st)"
  with SetIconInfo show ?thesis by (simp add: delete_pending_def awaits_def)
next
  case (Subscribe_DynamicMarkerCreated f)
  assume "delete_pending h (mstep op st)"
  with Subscribe_DynamicMarkerCreated show ?thesis by (simp add: delete_pending_def awaits_def)
qed (auto simp: delete_pending_def state_of_def LocationToPoint_def UpdateAnchor_def
       UpdateMarkerPosition_def UpdateTitle_def UpdateLabel_def UpdateDraggable_def UpdateIcon_def
       case_prod_unfold split: option.splits dest!: awaits_then_on)

subsection \<open>Which steps change the table\<close>

lemma markers_settle: "markers (settle p s st) = markers st"
  by (simp add: settle_def)

lemma markers_marker_callback:
  "markers (snd (marker_callback k v st)) h \<noteq> markers st h \<Longrightarrow>
   k = DeleteMarker_then h \<and> markers (snd (marker_callback k v st)) h = None"
  by (cases k; cases v)
     (auto simp: Let_def create_call_def emit_def new_promise_def split: option.splits prod.splits if_splits)

lemma markers_run_job:
  assumes "markers (run_job st) h \<noteq> markers st h"
  shows "(\<exists>v q js. jobs st = ReactionJob (DeleteMarker_then h) v q # js) \<and> markers (run_job st) h = None"
proof (cases "jobs st")
  case Nil
  with assms show ?thesis by (simp add: run_job_def)
next
  case (Cons j js)
  show ?thesis
  proof (cases j)
    case (ReactionJob k v q)
    with Cons have r: "jobs st = ReactionJob k v q # js" by simp
    from assms have "markers (snd (marker_callback k v (st\<lparr>jobs := js\<rparr>))) h
                       \<noteq> markers (st\<lparr>jobs := js\<rparr>) h"
      by (simp add: markers_run_job_reaction [OF r])
    from markers_marker_callback [OF this]
    have k: "k = DeleteMarker_then h"
      and n: "markers (snd (marker_callback k v (st\<lparr>jobs := js\<rparr>))) h = None"
      by blast+
    from n have "markers (run_job st) h = None"
      by (simp only: markers_run_job_reaction [OF r])
    with r k show ?thesis by blast
  next
    case (RejectJob q)
    with Cons assms show ?thesis by (simp add: run_job_def markers_settle)
  qed
qed

lemma markers_run_listeners: "markers (foldl (\<lambda>s l. run_listener l e s) st ls) = markers st"
proof (induction ls arbitrary: st)
  case Nil
  then show ?case by simp
next
  case (Cons l ls)
  then show ?case by (cases l) simp
qed

lemma markers_AddMarker: "markers (AddMarker h st) = (markers st)(h \<mapsto> next_pid st)"
  by (simp add: AddMarker_def create_call_def then_on_def attach_def new_promise_def Let_def
        split: option.splits pstate.splits)

lemma markers_mstep:
  assumes "markers (mstep op st) h \<noteq> markers st h"
  shows "(op = Call_AddMarker h \<and> markers (mstep op st) h = Some (next_pid st))
         \<or> (op = RunJob \<and> (\<exists>v q js. jobs st = ReactionJob (DeleteMarker_then h) v q # js)
             \<and> markers (mstep op st) h = None)"
proof (cases op)
  case (Call_AddMarker h')
  with assms show ?thesis by (auto simp: markers_AddMarker split: if_splits)
next
  case (Call_subscribe n h' ob)
  with assms show ?thesis
    by (simp add: CreateEventObservable_def markers_then_on split: option.splits)
next
  case (Call_DeleteMarker h')
  with assms show ?thesis
    by (simp add: DeleteMarker_def Promise_resolve_def new_promise_def markers_then_on
          split: option.splits)
next
  case RunJob
  with assms markers_run_job [of st h] show ?thesis by simp
next
  case (RaiseEvent m n e)
  with assms show ?thesis by (simp add: raise_event_def markers_run_listeners)
qed (insert assms, simp_all add: state_of_def LocationToPoint_def UpdateAnchor_def
       UpdateMarkerPosition_def UpdateTitle_def UpdateLabel_def UpdateDraggable_def UpdateIcon_def
       case_prod_unfold markers_then_on markers_settle split: option.splits)

lemma entry_kept:
  "Call_AddMarker h \<notin> set ops \<Longrightarrow> Call_DeleteMarker h \<notin> set ops \<Longrightarrow> \<not> delete_pending h st \<Longrightarrow>
   markers (mrun ops st) h = markers st h \<and> \<not> delete_pending h (mrun ops st)"
proof (induction ops arbitrary: st)
  case Nil
  then show ?case by (simp add: mrun_def)
next
  case (Cons op ops)
  from Cons.prems have op: "op \<noteq> Call_AddMarker h" "op \<noteq> Call_DeleteMarker h" by auto
  have np: "\<not> delete_pending h (mstep op st)"
    using delete_pending_mstep [of h op st] op Cons.prems(3) by blast
  have "\<not> (\<exists>v q js. jobs st = ReactionJob (DeleteMarker_then h) v q # js)"
    using Cons.prems(3) by (auto simp: delete_pending_def awaits_def job_has_def)
  with markers_mstep [of op st h] op have m: "markers (mstep op st) h = markers st h"
    by blast
  from Cons.IH [OF _ _ np] Cons.prems m show ?case by (simp add: mrun_def)
qed

lemma awaits_polyline_callback: "awaits P (snd (polyline_callback k l st)) = awaits P st"
  by (cases k)
     (simp_all add: awaits_def Let_def split: option.splits prod.splits pval.splits)

lemma awaits_Polyline_run_job:
  "awaits P (Polyline_run_job st) \<Longrightarrow> awaits P st \<or> P Polyline_Identity_then"
proof (cases "jobs st")
  case Nil
  assume "awaits P (Polyline_run_job st)"
  with Nil show ?thesis by (simp add: Polyline_run_job_def)
next
  case (Cons j js)
  assume a: "awaits P (Polyline_run_job st)"
  show ?thesis
  proof (cases j)
    case (ReactionJob k v q)
    with Cons have r: "jobs st = ReactionJob k v q # js" by simp
    from a have "awaits P (snd (polyline_callback k v (st\<lparr>jobs := js\<rparr>))) \<or> P Polyline_Identity_then"
      unfolding Polyline_run_job_reaction [OF r] by (rule awaits_finish)
    then have "awaits P (st\<lparr>jobs := js\<rparr>) \<or> P Polyline_Identity_then"
      by (simp add: awaits_polyline_callback)
    with r show ?thesis by (auto dest: awaits_tail)
  next
    case (RejectJob q)
    with Cons a have "awaits P (settle q Rejected (st\<lparr>jobs := js\<rparr>))"
      by (simp add: Polyline_run_job_def)
    then have "awaits P (st\<lparr>jobs := js\<rparr>)" by (rule awaits_settle)
    with Cons show ?thesis by (auto dest: awaits_tail)
  qed
qed

lemma awaits_Polyline_run_listeners:
  "awaits P (foldl (\<lambda>s l. Polyline_run_listener l e s) st ls) = awaits P st"
proof (induction ls arbitrary: st)
  case Nil
  then show ?case by simp
next
  case (Cons l ls)
  then show ?case by (cases l) (simp add: awaits_def)
qed

lemma awaits_AddPolyline: "awaits P (AddPolyline h st) = awaits P st"
  by (simp add: AddPolyline_def Polyline_create_call_def new_promise_def awaits_def Let_def)

lemma awaits_pstep:
  assumes "awaits P (pstep op st)" and "\<not> P Polyline_Identity_then"
  shows "awaits P st
         \<or> (\<exists>n h ob. op = Call_Polyline_subscribe n h ob \<and> n \<noteq> ''mousemove'' \<and> n \<noteq> ''rightclick''
                \<and> P (Polyline_CreateEventObservable_then n ob))
         \<or> (\<exists>h. op = Call_DeletePolyline h \<and> P (DeletePolyline_then h))
         \<or> (\<exists>h opts. op = Call_SetOptions h opts \<and> P (SetOptions_then opts))
         \<or> (\<exists>h. op = Call_UpdatePolyline h \<and> P (UpdatePolyline_then h))"
proof (cases op)
  case (Call_AddPolyline h)
  with assms show ?thesis by (simp add: awaits_AddPolyline)
next
  case (Call_Polyline_subscribe n h ob)
  with assms show ?thesis
    by (auto simp: Polyline_CreateEventObservable_def split: option.splits if_splits
          dest!: awaits_then_on)
next
  case (Call_DeletePolyline h)
  with assms show ?thesis
    by (auto simp: DeletePolyline_def Promise_resolve_def awaits_new_promise
          split: option.splits dest!: awaits_then_on)
next
  case (Call_GetNativePolyline h)
  with assms show ?thesis by simp
next
  case (Call_SetOptions h opts)
  with assms show ?thesis
    by (auto simp: SetOptions_def case_prod_unfold split: option.splits dest!: awaits_then_on)
next
  case (Call_UpdatePolyline h)
  with assms show ?thesis
    by (auto simp: UpdatePolyline_def Promise_resolve_def awaits_new_promise
          split: option.splits dest!: awaits_then_on)
next
  case (Polyline_Settle p s)
  with assms show ?thesis by (auto dest: awaits_settle)
next
  case Polyline_RunJob
  with assms show ?thesis by (auto dest: awaits_Polyline_run_job)
next
  case (Polyline_RaiseEvent m n e)
  with assms show ?thesis by (simp add: Polyline_raise_event_def awaits_Polyline_run_listeners)
next
  case (SetPolyline h pl)
  with assms show ?thesis by (simp add: awaits_def)
next
  case (SetArray a xs)
  with assms show ?thesis by (simp add: awaits_def)
qed

lemma Polyline_delete_pending_pstep:
  "Polyline_delete_pending h (pstep op st) \<Longrightarrow>
   Polyline_delete_pending h st \<or> op = Call_DeletePolyline h"
  unfolding Polyline_delete_pending_def
  using awaits_pstep [of "\<lambda>k. k = DeletePolyline_then h" op st] by auto

subsection \<open>Which steps change the table of polylines\<close>

lemma polylines_settle: "polylines (settle p s st) = polylines st"
  by (simp add: settle_def)

lemma polylines_polyline_callback:
  "polylines (snd (polyline_callback k l st)) h \<noteq> polylines st h \<Longrightarrow>
   k = DeletePolyline_then h \<and> polylines (snd (polyline_callback k l st)) h = None"
  by (cases k)
     (auto simp: Let_def split: option.splits prod.splits if_splits pval.splits)

lemma polylines_Polyline_run_job:
  assumes "polylines (Polyline_run_job st) h \<noteq> polylines st h"
  shows "(\<exists>v q js. jobs st = ReactionJob (DeletePolyline_then h) v q # js)
         \<and> polylines (Polyline_run_job st) h = None"
proof (cases "jobs st")
  case Nil
  with assms show ?thesis by (simp add: Polyline_run_job_def)
next
  case (Cons j js)
  show ?thesis
  proof (cases j)
    case (ReactionJob k v q)
    with Cons have r: "jobs st = ReactionJob k v q # js" by simp
    from assms have "polylines (snd (polyline_callback k v (st\<lparr>jobs := js\<rparr>))) h
                       \<noteq> polylines (st\<lparr>jobs := js\<rparr>) h"
      by (simp add: polylines_run_job_reaction [OF r])
    from polylines_polyline_callback [OF this]
    have k: "k = DeletePolyline_then h"
      and n: "polylines (snd (polyline_callback k v (st\<lparr>jobs := js\<rparr>))) h = None"
      by blast+
    from n have "polylines (Polyline_run_job st) h = None"
      by (simp only: polylines_run_job_reaction [OF r])
    with r k show ?thesis by blast
  next
    case (RejectJob q)
    with Cons assms show ?thesis by (simp add: Polyline_run_job_def polylines_settle)
  qed
qed

lemma polylines_run_listeners:
  "polylines (foldl (\<lambda>s l. Polyline_run_listener l e s) st ls) = polylines st"
proof (induction ls arbitrary: st)
  case Nil
  then show ?case by simp
next
  case (Cons l ls)
  then show ?case by (cases l) simp
qed

lemma polylines_AddPolyline: "polylines (AddPolyline h st) = (polylines st)(h \<mapsto> next_pid st)"
  by (simp add: AddPolyline_def Polyline_create_call_def new_promise_def Let_def)

lemma polylines_pstep:
  assumes "polylines (pstep op st) h \<noteq> polylines st h"
  shows "(op = Call_AddPolyline h \<and> polylines (pstep op st) h = Some (next_pid st))
         \<or> (op = Polyline_RunJob \<and> (\<exists>v q js. jobs st = ReactionJob (DeletePolyline_then h) v q # js)
             \<and> polylines (pstep op st) h = None)"
proof (cases op)
  case (Call_AddPolyline h')
  with assms show ?thesis by (auto simp: polylines_AddPolyline split: if_splits)
next
  case (Call_Polyline_subscribe n h' ob)
  with assms show ?thesis
    by (simp add: Polyline_CreateEventObservable_def polylines_then_on split: option.splits if_splits)
next
  case (Call_DeletePolyline h')
  with assms show ?thesis
    by (simp add: DeletePolyline_def Promise_resolve_def new_promise_def polylines_then_on
          split: option.splits)
next
  case (Call_UpdatePolyline h')
  with assms show ?thesis
    by (simp add: UpdatePolyline_def Promise_resolve_def new_promise_def polylines_then_on
          split: option.splits)
next
  case Polyline_RunJob
  with assms polylines_Polyline_run_job [of st h] show ?thesis by simp
next
  case (Polyline_RaiseEvent m n e)
  with assms show ?thesis by (simp add: Polyline_raise_event_def polylines_run_listeners)
qed (insert assms, simp_all add: SetOptions_def case_prod_unfold polylines_then_on polylines_settle
       split: option.splits)

lemma Polyline_entry_kept:
  "Call_AddPolyline h \<notin> set ops \<Longrightarrow> Call_DeletePolyline h \<notin> set ops \<Longrightarrow>
   \<not> Polyline_delete_pending h st \<Longrightarrow>
   polylines (prun ops st) h = polylines st h \<and> \<not> Polyline_delete_pending h (prun ops st)"
proof (induction ops arbitrary: st)
  case Nil
  then show ?case by (simp add: prun_def)
next
  case (Cons op ops)
  from Cons.prems have op: "op \<noteq> Call_AddPolyline h" "op \<noteq> Call_DeletePolyline h" by auto
  have np: "\<not> Polyline_delete_pending h (pstep op st)"
    using Polyline_delete_pending_pstep [of h op st] op Cons.prems(3) by blast
  have "\<not> (\<exists>v q js. jobs st = ReactionJob (DeletePolyline_then h) v q # js)"
    using Cons.prems(3) by (auto simp: Polyline_delete_pending_def awaits_def job_has_def)
  with polylines_pstep [of op st h] op have m: "polylines (pstep op st) h = polylines st h"
    by blast
  from Cons.IH [OF _ _ np] Cons.prems m show ?case by (simp add: prun_def)
qed

lemma one_marker_eq:
  "one_marker =
     \<lparr>pstates = [0 \<mapsto> Pending], reactions = [], jobs = [], next_pid = 1,
      markers = [7 \<mapsto> 0], marker_objs = (\<lambda>h. a_marker), icon_objs = no_icons,
       on_emit = (\<lambda>h i x. x),
      calls = [MapService_CreateMarker (marker_options a_marker) 0]\<rparr>"
  by (simp add: one_marker_def AddMarker_def BingMarkerService_new_def a_marker_def
        create_call_def new_promise_def Let_def)

lemma one_polyline_eq:
  "one_polyline =
     \<lparr>pstates = [0 \<mapsto> Pending], reactions = [], jobs = [], next_pid = 1,
      polylines = [1 \<mapsto> 0], polyline_objs = (\<lambda>h. a_polyline), arrays = (\<lambda>a. []),
      pcalls = [MapService_CreatePolyline (polyline_options a_polyline) 0]\<rparr>"
  by (simp add: one_polyline_def AddPolyline_def BingPolylineService_new_def
        Polyline_create_call_def new_promise_def Let_def a_polyline_layer)

text \<open>
  C2.  After \<^verbatim>\<open>AddMarker\<close> the table has an entry for the handle.  A step of the
  world changes the entry of a handle only when it is \<^verbatim>\<open>AddMarker\<close> on that handle or
  when it runs the callback of \<^verbatim>\<open>DeleteMarker\<close> on that handle, which removes the
  entry; such a callback waits or is queued only after a call of \<^verbatim>\<open>DeleteMarker\<close> on
  that handle.  So over any steps without \<^verbatim>\<open>AddMarker\<close> and \<^verbatim>\<open>DeleteMarker\<close>
  on the handle, and with no deletion of it under way, the entry stays as it is.  The
  same holds for \<^verbatim>\<open>AddPolyline\<close> and \<^verbatim>\<open>DeletePolyline\<close>.
\<close>

theorem table_entries:
  "markers (AddMarker h st) h = Some (next_pid st)
   \<and> (markers (mstep opA stA) hA \<noteq> markers stA hA \<longrightarrow>
      ((opA = Call_AddMarker hA \<and> markers (mstep opA stA) hA = Some (next_pid stA))
       \<or> (opA = RunJob \<and> (\<exists>v q js. jobs stA = ReactionJob (DeleteMarker_then hA) v q # js)
           \<and> markers (mstep opA stA) hA = None)))
   \<and> (delete_pending hB (mstep opB stB) \<and> \<not> delete_pending hB stB \<longrightarrow>
      opB = Call_DeleteMarker hB)
   \<and> (Call_AddMarker hC \<notin> set opsC \<and> Call_DeleteMarker hC \<notin> set opsC \<and>
      \<not> delete_pending hC stC \<longrightarrow>
      markers (mrun opsC stC) hC = markers stC hC)
   \<and> polylines (AddPolyline g pst) g = Some (next_pid pst)
   \<and> (polylines (pstep popA pstA) gA \<noteq> polylines pstA gA \<longrightarrow>
      ((popA = Call_AddPolyline gA \<and> polylines (pstep popA pstA) gA = Some (next_pid pstA))
       \<or> (popA = Polyline_RunJob \<and> (\<exists>v q js. jobs pstA = ReactionJob (DeletePolyline_then gA) v q # js)
           \<and> polylines (pstep popA pstA) gA = None)))
   \<and> (Polyline_delete_pending gB (pstep popB pstB) \<and> \<not> Polyline_delete_pending gB pstB \<longrightarrow>
      popB = Call_DeletePolyline gB)
   \<and> (Call_AddPolyline gC \<notin> set popsC \<and> Call_DeletePolyline gC \<notin> set popsC \<and>
      \<not> Polyline_delete_pending gC pstC \<longrightarrow>
      polylines (prun popsC pstC) gC = polylines pstC gC)"
  apply (intro conjI impI)
  subgoal by (simp add: markers_AddMarker)
  subgoal by (rule markers_mstep)
  subgoal using delete_pending_mstep [of hB opB stB] by blast
  subgoal using entry_kept [of hC opsC stC] by blast
  subgoal by (simp add: polylines_AddPolyline)
  subgoal by (rule polylines_pstep)
  subgoal using Polyline_delete_pending_pstep [of gB popB pstB] by blast
  subgoal using Polyline_entry_kept [of gC popsC pstC] by blast
  done

theorem table_entries_witness:
  "(markers (AddMarker 7 one_marker) 7 = Some (next_pid one_marker))
   \<and> (markers (mstep (Call_AddMarker 7) (BingMarkerService_new (\<lambda>h. a_marker) no_icons)) 7 \<noteq> markers (BingMarkerService_new (\<lambda>h. a_marker) no_icons) 7)
   \<and> ((((Call_AddMarker 7) = Call_AddMarker 7 \<and> markers (mstep (Call_AddMarker 7) (BingMarkerService_new (\<lambda>h. a_marker) no_icons)) 7 = Some (next_pid (BingMarkerService_new (\<lambda>h. a_marker) no_icons)))
       \<or> ((Call_AddMarker 7) = RunJob \<and> (\<exists>v q js. jobs (BingMarkerService_new (\<lambda>h. a_marker) no_icons) = ReactionJob (DeleteMarker_then 7) v q # js)
           \<and> markers (mstep (Call_AddMarker 7) (BingMarkerService_new (\<lambda>h. a_marker) no_icons)) 7 = None)))
   \<and> (delete_pending 7 (mstep (Call_DeleteMarker 7) one_marker) \<and> \<not> delete_pending 7 one_marker)
   \<and> ((Call_DeleteMarker 7) = Call_DeleteMarker 7)
   \<and> (Call_AddMarker 7 \<notin> set [Call_UpdateTitle 7, Settle 0 (Fulfilled (VMarker 3)), RunJob] \<and> Call_DeleteMarker 7 \<notin> set [Call_UpdateTitle 7, Settle 0 (Fulfilled (VMarker 3)), RunJob] \<and>
      \<not> delete_pending 7 one_marker)
   \<and> (markers (mrun [Call_UpdateTitle 7, Settle 0 (Fulfilled (VMarker 3)), RunJob] one_marker) 7 = markers one_marker 7)
   \<and> (polylines (AddPolyline 1 one_polyline) 1 = Some (next_pid one_polyline))
   \<and> (polylines (pstep (Call_AddPolyline 1) (BingPolylineService_new (\<lambda>h. a_polyline) (\<lambda>a. []))) 1 \<noteq> polylines (BingPolylineService_new (\<lambda>h. a_polyline) (\<lambda>a. [])) 1)
   \<and> ((((Call_AddPolyline 1) = Call_AddPolyline 1 \<and> polylines (pstep (Call_AddPolyline 1) (BingPolylineService_new (\<lambda>h. a_polyline) (\<lambda>a. []))) 1 = Some (next_pid (BingPolylineService_new (\<lambda>h. a_polyline) (\<lambda>a. []))))
       \<or> ((Call_AddPolyline 1) = Polyline_RunJob \<and> (\<exists>v q js. jobs (BingPolylineService_new (\<lambda>h. a_polyline) (\<lambda>a. [])) = ReactionJob (DeletePolyline_then 1) v q # js)
           \<and> polylines (pstep (Call_AddPolyline 1) (BingPolylineService_new (\<lambda>h. a_polyline) (\<lambda>a. []))) 1 = None)))
   \<and> (Polyline_delete_pending 1 (pstep (Call_DeletePolyline 1) one_polyline) \<and> \<not> Polyline_delete_pending 1 one_polyline)
   \<and> ((Call_DeletePolyline 1) = Call_DeletePolyline 1)
   \<and> (Call_AddPolyline 1 \<notin> set [Call_UpdatePolyline 1, Polyline_Settle 0 (Fulfilled (VLine 4)), Polyline_RunJob] \<and> Call_DeletePolyline 1 \<notin> set [Call_UpdatePolyline 1, Polyline_Settle 0 (Fulfilled (VLine 4)), Polyline_RunJob] \<and>
      \<not> Polyline_delete_pending 1 one_polyline)
   \<and> (polylines (prun [Call_UpdatePolyline 1, Polyline_Settle 0 (Fulfilled (VLine 4)), Polyline_RunJob] one_polyline) 1 = polylines one_polyline 1)"
proof -
  have a: "markers (mstep (Call_AddMarker 7) (BingMarkerService_new (\<lambda>h. a_marker) no_icons)) 7 \<noteq> markers (BingMarkerService_new (\<lambda>h. a_marker) no_icons) 7"
    by (simp add: markers_AddMarker BingMarkerService_new_def)
  have b: "delete_pending 7 (mstep (Call_DeleteMarker 7) one_marker) \<and> \<not> delete_pending 7 one_marker"
    by (simp add: one_marker_eq delete_pending_def awaits_def job_has_def DeleteMarker_def
          then_on_def new_promise_def attach_def)
  have c: "Call_AddMarker 7 \<notin> set [Call_UpdateTitle 7, Settle 0 (Fulfilled (VMarker 3)), RunJob] \<and> Call_DeleteMarker 7 \<notin> set [Call_UpdateTitle 7, Settle 0 (Fulfilled (VMarker 3)), RunJob] \<and>
      \<not> delete_pending 7 one_marker"
    by (simp add: one_marker_eq delete_pending_def awaits_def)
  have d: "polylines (pstep (Call_AddPolyline 1) (BingPolylineService_new (\<lambda>h. a_polyline) (\<lambda>a. []))) 1 \<noteq> polylines (BingPolylineService_new (\<lambda>h. a_polyline) (\<lambda>a. [])) 1"
    by (simp add: polylines_AddPolyline BingPolylineService_new_def)
  have e: "Polyline_delete_pending 1 (pstep (Call_DeletePolyline 1) one_polyline) \<and> \<not> Polyline_delete_pending 1 one_polyline"
    by (simp add: one_polyline_eq Polyline_delete_pending_def awaits_def job_has_def
          DeletePolyline_def then_on_def new_promise_def attach_def)
  have f: "Call_AddPolyline 1 \<notin> set [Call_UpdatePolyline 1, Polyline_Settle 0 (Fulfilled (VLine 4)), Polyline_RunJob] \<and> Call_DeletePolyline 1 \<notin> set [Call_UpdatePolyline 1, Polyline_Settle 0 (Fulfilled (VLine 4)), Polyline_RunJob] \<and>
      \<not> Polyline_delete_pending 1 one_polyline"
    by (simp add: one_polyline_eq Polyline_delete_pending_def awaits_def)
  note t = table_entries [where h = 7 and st = one_marker and hA = 7 and stA = "BingMarkerService_new (\<lambda>h. a_marker) no_icons" and opA = "Call_AddMarker 7"
      and hB = 7 and stB = one_marker and opB = "Call_DeleteMarker 7"
      and hC = 7 and stC = one_marker and opsC = "[Call_UpdateTitle 7, Settle 0 (Fulfilled (VMarker 3)), RunJob]"
      and g = 1 and pst = one_polyline and gA = 1 and pstA = "BingPolylineService_new (\<lambda>h. a_polyline) (\<lambda>a. [])" and popA = "Call_AddPolyline 1"
      and gB = 1 and pstB = one_polyline and popB = "Call_DeletePolyline 1"
      and gC = 1 and pstC = one_polyline and popsC = "[Call_UpdatePolyline 1, Polyline_Settle 0 (Fulfilled (VLine 4)), Polyline_RunJob]"]
  from t have c1: "markers (AddMarker 7 one_marker) 7 = Some (next_pid one_marker)" by (elim conjE)
  from t have i2: "markers (mstep (Call_AddMarker 7) (BingMarkerService_new (\<lambda>h. a_marker) no_icons)) 7 \<noteq> markers (BingMarkerService_new (\<lambda>h. a_marker) no_icons) 7 \<longrightarrow>
      (((Call_AddMarker 7) = Call_AddMarker 7 \<and> markers (mstep (Call_AddMarker 7) (BingMarkerService_new (\<lambda>h. a_marker) no_icons)) 7 = Some (next_pid (BingMarkerService_new (\<lambda>h. a_marker) no_icons)))
       \<or> ((Call_AddMarker 7) = RunJob \<and> (\<exists>v q js. jobs (BingMarkerService_new (\<lambda>h. a_marker) no_icons) = ReactionJob (DeleteMarker_then 7) v q # js)
           \<and> markers (mstep (Call_AddMarker 7) (BingMarkerService_new (\<lambda>h. a_marker) no_icons)) 7 = None))" by (elim conjE)
  from i2 a have c2: "(((Call_AddMarker 7) = Call_AddMarker 7 \<and> markers (mstep (Call_AddMarker 7) (BingMarkerService_new (\<lambda>h. a_marker) no_icons)) 7 = Some (next_pid (BingMarkerService_new (\<lambda>h. a_marker) no_icons)))
       \<or> ((Call_AddMarker 7) = RunJob \<and> (\<exists>v q js. jobs (BingMarkerService_new (\<lambda>h. a_marker) no_icons) = ReactionJob (DeleteMarker_then 7) v q # js)
           \<and> markers (mstep (Call_AddMarker 7) (BingMarkerService_new (\<lambda>h. a_marker) no_icons)) 7 = None))" by (rule mp)
  from t have i3: "delete_pending 7 (mstep (Call_DeleteMarker 7) one_marker) \<and> \<not> delete_pending 7 one_marker \<longrightarrow>
      (Call_DeleteMarker 7) = Call_DeleteMarker 7" by (elim conjE)
  from i3 b have c3: "(Call_DeleteMarker 7) = Call_DeleteMarker 7" by (rule mp)
  from t have i4: "Call_AddMarker 7 \<notin> set [Call_UpdateTitle 7, Settle 0 (Fulfilled (VMarker 3)), RunJob] \<and> Call_DeleteMarker 7 \<notin> set [Call_UpdateTitle 7, Settle 0 (Fulfilled (VMarker 3)), RunJob] \<and>
      \<not> delete_pending 7 one_marker \<longrightarrow>
      markers (mrun [Call_UpdateTitle 7, Settle 0 (Fulfilled (VMarker 3)), RunJob] one_marker) 7 = markers one_marker 7" by (elim conjE)
  from i4 c have c4: "markers (mrun [Call_UpdateTitle 7, Settle 0 (Fulfilled (VMarker 3)), RunJob] one_marker) 7 = markers one_marker 7" by (rule mp)
  from t have c5: "polylines (AddPolyline 1 one_polyline) 1 = Some (next_pid one_polyline)" by (elim conjE)
  from t have i6: "polylines (pstep (Call_AddPolyline 1) (BingPolylineService_new (\<lambda>h. a_polyline) (\<lambda>a. []))) 1 \<noteq> polylines (BingPolylineService_new (\<lambda>h. a_polyline) (\<lambda>a. [])) 1 \<longrightarrow>
      (((Call_AddPolyline 1) = Call_AddPolyline 1 \<and> polylines (pstep (Call_AddPolyline 1) (BingPolylineService_new (\<lambda>h. a_polyline) (\<lambda>a. []))) 1 = Some (next_pid (BingPolylineService_new (\<lambda>h. a_polyline) (\<lambda>a. []))))
       \<or> ((Call_AddPolyline 1) = Polyline_RunJob \<and> (\<exists>v q js. jobs (BingPolylineService_new (\<lambda>h. a_polyline) (\<lambda>a. [])) = ReactionJob (DeletePolyline_then 1) v q # js)
           \<and> polylines (pstep (Call_AddPolyline 1) (BingPolylineService_new (\<lambda>h. a_polyline) (\<lambda>a. []))) 1 = None))" by (elim conjE)
  from i6 d have c6: "(((Call_AddPolyline 1) = Call_AddPolyline 1 \<and> polylines (pstep (Call_AddPolyline 1) (BingPolylineService_new (\<lambda>h. a_polyline) (\<lambda>a. []))) 1 = Some (next_pid (BingPolylineService_new (\<lambda>h. a_polyline) (\<lambda>a. []))))
       \<or> ((Call_AddPolyline 1) = Polyline_RunJob \<and> (\<exists>v q js. jobs (BingPolylineService_new (\<lambda>h. a_polyline) (\<lambda>a. [])) = ReactionJob (DeletePolyline_then 1) v q # js)
           \<and> polylines (pstep (Call_AddPolyline 1) (BingPolylineService_new (\<lambda>h. a_polyline) (\<lambda>a. []))) 1 = None))" by (rule mp)
  from t have i7: "Polyline_delete_pending 1 (pstep (Call_DeletePolyline 1) one_polyline) \<and> \<not> Polyline_delete_pending 1 one_polyline \<longrightarrow>
      (Call_DeletePolyline 1) = Call_DeletePolyline 1" by (elim conjE)
  from i7 e have c7: "(Call_DeletePolyline 1) = Call_DeletePolyline 1" by (rule mp)
  from t have i8: "Call_AddPolyline 1 \<notin> set [Call_UpdatePolyline 1, Polyline_Settle 0 (Fulfilled (VLine 4)), Polyline_RunJob] \<and> Call_DeletePolyline 1 \<notin> set [Call_UpdatePolyline 1, Polyline_Settle 0 (Fulfilled (VLine 4)), Polyline_RunJob] \<and>
      \<not> Polyline_delete_pending 1 one_polyline \<longrightarrow>
      polylines (prun [Call_UpdatePolyline 1, Polyline_Settle 0 (Fulfilled (VLine 4)), Polyline_RunJob] one_polyline) 1 = polylines one_polyline 1" by (elim conjE)
  from i8 f have c8: "polylines (prun [Call_UpdatePolyline 1, Polyline_Settle 0 (Fulfilled (VLine 4)), Polyline_RunJob] one_polyline) 1 = polylines one_polyline 1" by (rule mp)
  show ?thesis by (rule conjI [OF c1 conjI [OF a conjI [OF c2 conjI [OF b conjI [OF c3 conjI [OF c conjI [OF c4 conjI [OF c5 conjI [OF d conjI [OF c6 conjI [OF e conjI [OF c7 conjI [OF f c8]]]]]]]]]]]]])
qed








section \<open>Events of a polyline\<close>

lemma received_append: "received ob (xs @ ys) = received ob xs @ received ob ys"
  by (induction ob xs rule: received.induct) simp_all

lemma listens_append: "list_ex (listens ob) (xs @ ys) = (list_ex (listens ob) xs \<or> list_ex (listens ob) ys)"
  by simp

lemma no_listener:
  "\<not> list_ex (listens ob) cs \<Longrightarrow> Forward ob \<notin> set (Polyline_listeners_of m n cs)"
  by (induction m n cs rule: Polyline_listeners_of.induct) (auto simp: listens_def)

lemma pcalls_run_listeners:
  "pcalls (foldl (\<lambda>s l. Polyline_run_listener l e s) st ls)
     = pcalls st @ map (\<lambda>l. case l of Forward ob \<Rightarrow> Polyline_Observer_next ob e) ls"
proof (induction ls arbitrary: st)
  case Nil
  then show ?case by simp
next
  case (Cons l ls)
  then show ?case by (cases l) simp
qed

lemma pcalls_raise_event:
  "pcalls (Polyline_raise_event m n e st)
     = pcalls st @ map (\<lambda>l. case l of Forward ob \<Rightarrow> Polyline_Observer_next ob e)
                     (Polyline_listeners_of m n (pcalls st))"
  by (simp add: Polyline_raise_event_def pcalls_run_listeners)

lemma quiet_deliveries:
  "Forward ob \<notin> set ls \<Longrightarrow>
   received ob (map (\<lambda>l. case l of Forward ob \<Rightarrow> Polyline_Observer_next ob e) ls) = [] \<and>
   \<not> list_ex (listens ob) (map (\<lambda>l. case l of Forward ob \<Rightarrow> Polyline_Observer_next ob e) ls)"
proof (induction ls)
  case Nil
  then show ?case by simp
next
  case (Cons l ls)
  then show ?case by (cases l) (auto simp: listens_def)
qed

lemma quiet_map:
  assumes "\<And>x. received ob [f x] = [] \<and> \<not> listens ob (f x)"
  shows "received ob (map f xs) = [] \<and> \<not> list_ex (listens ob) (map f xs)"
proof (induction xs)
  case Nil
  then show ?case by simp
next
  case (Cons x xs)
  have "received ob (f x # map f xs) = received ob [f x] @ received ob (map f xs)"
    using received_append [of ob "[f x]" "map f xs"] by simp
  with Cons assms [of x] show ?case by simp
qed

lemma quiet_polyline_callback:
  assumes "\<not> will_listen ob k"
  shows "\<exists>ext. pcalls (snd (polyline_callback k l st)) = pcalls st @ ext \<and>
               received ob ext = [] \<and> \<not> list_ex (listens ob) ext"
proof (cases k)
  case (Polyline_CreateEventObservable_then n ob')
  with assms have "ob' \<noteq> ob" by (simp add: will_listen_def)
  then have "\<And>xs. received ob (map (\<lambda>line. Polyline_AddListener line n (Forward ob')) xs) = [] \<and>
               \<not> list_ex (listens ob) (map (\<lambda>line. Polyline_AddListener line n (Forward ob')) xs)"
    by (intro quiet_map) (simp add: listens_def)
  with Polyline_CreateEventObservable_then show ?thesis
    by (simp split: option.splits)
next
  case (DeletePolyline_then h)
  have "\<And>xs. received ob (map Polyline_Delete xs) = [] \<and> \<not> list_ex (listens ob) (map Polyline_Delete xs)"
    by (intro quiet_map) (simp add: listens_def)
  with DeletePolyline_then show ?thesis by (simp split: option.splits)
next
  case (SetOptions_then opts)
  have "\<And>xs. received ob (map (\<lambda>line. Polyline_SetOptions line opts) xs) = [] \<and>
               \<not> list_ex (listens ob) (map (\<lambda>line. Polyline_SetOptions line opts) xs)"
    by (intro quiet_map) (simp add: listens_def)
  with SetOptions_then show ?thesis by (simp split: option.splits)
next
  case (UpdatePolyline_then h)
  have d: "\<And>xs. received ob (map Polyline_Delete xs) = [] \<and> \<not> list_ex (listens ob) (map Polyline_Delete xs)"
    by (intro quiet_map) (simp add: listens_def)
  have s: "\<And>xs. received ob (map (\<lambda>(line, seg). Polyline_SetPath line seg) xs) = [] \<and>
               \<not> list_ex (listens ob) (map (\<lambda>(line, seg). Polyline_SetPath line seg) xs)"
    by (intro quiet_map) (simp add: listens_def split: prod.splits)
  from UpdatePolyline_then d s show ?thesis
    by (simp add: Let_def forEach_SetPath_zip received_append
          split: option.splits pval.splits prod.splits)
next
  case Polyline_Identity_then
  then show ?thesis by simp
qed

lemma quiet_Polyline_run_job:
  assumes "\<not> awaits (will_listen ob) st"
  shows "\<exists>ext. pcalls (Polyline_run_job st) = pcalls st @ ext \<and>
               received ob ext = [] \<and> \<not> list_ex (listens ob) ext"
proof (cases "jobs st")
  case Nil
  then show ?thesis by (simp add: Polyline_run_job_def)
next
  case (Cons j js)
  show ?thesis
  proof (cases j)
    case (ReactionJob k v q)
    with Cons have r: "jobs st = ReactionJob k v q # js" by simp
    with assms have "\<not> will_listen ob k" using awaits_head [OF r] by blast
    from quiet_polyline_callback [OF this, of v "st\<lparr>jobs := js\<rparr>"]
    show ?thesis by (simp add: pcalls_run_job_reaction [OF r])
  next
    case (RejectJob q)
    with Cons show ?thesis by (simp add: Polyline_run_job_def settle_def)
  qed
qed

lemma quiet_pstep:
  assumes "\<not> wired ob st"
  shows "\<exists>ext. pcalls (pstep op st) = pcalls st @ ext \<and>
               received ob ext = [] \<and> \<not> list_ex (listens ob) ext"
proof (cases op)
  case (Call_AddPolyline h)
  then show ?thesis
    by (simp add: AddPolyline_def Polyline_create_call_def new_promise_def Let_def listens_def)
next
  case (Call_Polyline_subscribe n h ob')
  then show ?thesis
    by (simp add: Polyline_CreateEventObservable_def pcalls_then_on split: option.splits)
next
  case (Call_DeletePolyline h)
  then show ?thesis
    by (simp add: DeletePolyline_def Promise_resolve_def new_promise_def pcalls_then_on
          split: option.splits)
next
  case (Call_SetOptions h opts)
  then show ?thesis
    by (simp add: SetOptions_def case_prod_unfold pcalls_then_on split: option.splits)
next
  case (Call_UpdatePolyline h)
  then show ?thesis
    by (simp add: UpdatePolyline_def Promise_resolve_def new_promise_def pcalls_then_on
          split: option.splits)
next
  case (Polyline_Settle p s)
  then show ?thesis by (simp add: settle_def)
next
  case Polyline_RunJob
  with assms quiet_Polyline_run_job [of ob st] show ?thesis by (simp add: wired_def)
next
  case (Polyline_RaiseEvent m n e)
  from assms have "Forward ob \<notin> set (Polyline_listeners_of m n (pcalls st))"
    by (intro no_listener) (simp add: wired_def)
  from quiet_deliveries [OF this] Polyline_RaiseEvent show ?thesis
    by (simp add: pcalls_raise_event)
qed simp_all

lemma not_wired_pstep:
  assumes w: "\<not> wired ob st" and s: "\<not> supported_subscription ob op"
  shows "\<not> wired ob (pstep op st) \<and> received ob (pcalls (pstep op st)) = received ob (pcalls st)"
proof -
  obtain ext where ext: "pcalls (pstep op st) = pcalls st @ ext" "received ob ext = []"
      "\<not> list_ex (listens ob) ext"
    using quiet_pstep [OF w] by blast
  have "\<not> awaits (will_listen ob) (pstep op st)"
    using awaits_pstep [of "will_listen ob" op st] w s
    by (auto simp: wired_def will_listen_def supported_subscription_def)
  with ext w show ?thesis by (simp add: wired_def received_append)
qed

lemma never_received:
  "\<not> wired ob st \<Longrightarrow> \<not> list_ex (supported_subscription ob) ops \<Longrightarrow>
   \<not> wired ob (prun ops st) \<and> received ob (pcalls (prun ops st)) = received ob (pcalls st)"
proof (induction ops arbitrary: st)
  case Nil
  then show ?case by (simp add: prun_def)
next
  case (Cons op ops)
  from Cons.prems have s: "\<not> supported_subscription ob op"
    and r: "\<not> list_ex (supported_subscription ob) ops" by simp_all
  from not_wired_pstep [OF Cons.prems(1) s] Cons.IH [OF _ r, of "pstep op st"]
  show ?case by (simp add: prun_def)
qed

lemma Polyline_subscribe_entry:
  assumes "eventName \<noteq> ''mousemove'' \<and> eventName \<noteq> ''rightclick'' \<and> polylines st h = Some p \<and>
      (pstates st p = Some Pending \<or> pstates st p = Some (Fulfilled l)) \<and>
      pstates st (next_pid st) = None \<and> l \<noteq> VNothing"
  shows "\<exists>st1. Polyline_subscribe (Polyline_CreateEventObservable eventName h) observer st = Inr st1 \<and>
          pcalls st1 = pcalls st \<and>
          (let st2 = Polyline_before_last_job (settle p (Fulfilled l) st1)
           in pcalls (Polyline_run_job st2)
                = pcalls st2 @ map (\<lambda>line. Polyline_AddListener line eventName (Forward observer))
                    (case l of VLine n \<Rightarrow> [n] | VLines a \<Rightarrow> arrays st2 a | VNothing \<Rightarrow> []))"
proof (intro exI conjI)
  let ?k = "Polyline_CreateEventObservable_then eventName observer"
  let ?st1 = "snd (then_on p ?k st)"
  let ?st2 = "Polyline_before_last_job (settle p (Fulfilled l) ?st1)"
  from assms have p: "pstates st p = Some Pending \<or> pstates st p = Some (Fulfilled l)"
    and new: "pstates st (next_pid st) = None" and l: "l \<noteq> VNothing" by blast+
  show "Polyline_subscribe (Polyline_CreateEventObservable eventName h) observer st = Inr ?st1"
    using assms by (simp add: Polyline_CreateEventObservable_def)
  show "pcalls ?st1 = pcalls st" by (rule pcalls_then_on)
  obtain js where js: "jobs ?st2 = ReactionJob ?k l (next_pid st) # js"
    using Polyline_awaited [OF p new, where k = ?k] by auto
  show "let st2 = ?st2
        in pcalls (Polyline_run_job st2)
             = pcalls st2 @ map (\<lambda>line. Polyline_AddListener line eventName (Forward observer))
                 (case l of VLine n \<Rightarrow> [n] | VLines a \<Rightarrow> arrays st2 a | VNothing \<Rightarrow> [])"
    using l js
    by (cases l) (simp_all add: Let_def pcalls_run_job_reaction as_array_def)
qed

text \<open>
  C9.  For \<^verbatim>\<open>mousemove\<close> and \<^verbatim>\<open>rightclick\<close> the polyline service's
  \<^verbatim>\<open>CreateEventObservable\<close> returns the observable of a new subject; a subscription
  to it leaves the state as it is, so it adds no listener, and an observer that is wired
  to no native polyline and subscribes to no other event receives nothing over any steps
  of the world.  For every other event name and a handle with an entry, the callback of the
  subscription adds the listener to the native polyline, or to every element of the array
  of native polylines.
\<close>

theorem polyline_events:
  "Polyline_CreateEventObservable ''mousemove'' polyline = Subject_asObservable
   \<and> Polyline_CreateEventObservable ''rightclick'' polyline = Subject_asObservable
   \<and> Polyline_subscribe Subject_asObservable observer stA = Inr stA
   \<and> (\<not> wired ob stB \<and> \<not> list_ex (supported_subscription ob) ops \<longrightarrow>
      received ob (pcalls (prun ops stB)) = received ob (pcalls stB))
   \<and> (eventName \<noteq> ''mousemove'' \<and> eventName \<noteq> ''rightclick'' \<and> polylines st h = Some p \<and>
      (pstates st p = Some Pending \<or> pstates st p = Some (Fulfilled l)) \<and>
      pstates st (next_pid st) = None \<and> l \<noteq> VNothing \<longrightarrow>
      (\<exists>st1. Polyline_subscribe (Polyline_CreateEventObservable eventName h) observer' st = Inr st1 \<and>
          pcalls st1 = pcalls st \<and>
          (let st2 = Polyline_before_last_job (settle p (Fulfilled l) st1)
           in pcalls (Polyline_run_job st2)
                = pcalls st2 @ map (\<lambda>line. Polyline_AddListener line eventName (Forward observer'))
                    (case l of VLine n \<Rightarrow> [n] | VLines a \<Rightarrow> arrays st2 a | VNothing \<Rightarrow> []))))"
proof (intro conjI impI)
  show "Polyline_CreateEventObservable ''mousemove'' polyline = Subject_asObservable"
    and "Polyline_CreateEventObservable ''rightclick'' polyline = Subject_asObservable"
    and "Polyline_subscribe Subject_asObservable observer stA = Inr stA"
    by (simp_all add: Polyline_CreateEventObservable_def)
  show "received ob (pcalls (prun ops stB)) = received ob (pcalls stB)"
    if "\<not> wired ob stB \<and> \<not> list_ex (supported_subscription ob) ops"
    using that never_received [of ob stB ops] by blast
  show "(\<exists>st1. Polyline_subscribe (Polyline_CreateEventObservable eventName h) observer' st = Inr st1 \<and>
          pcalls st1 = pcalls st \<and>
          (let st2 = Polyline_before_last_job (settle p (Fulfilled l) st1)
           in pcalls (Polyline_run_job st2)
                = pcalls st2 @ map (\<lambda>line. Polyline_AddListener line eventName (Forward observer'))
                    (case l of VLine n \<Rightarrow> [n] | VLines a \<Rightarrow> arrays st2 a | VNothing \<Rightarrow> [])))"
    if "eventName \<noteq> ''mousemove'' \<and> eventName \<noteq> ''rightclick'' \<and> polylines st h = Some p \<and>
      (pstates st p = Some Pending \<or> pstates st p = Some (Fulfilled l)) \<and>
      pstates st (next_pid st) = None \<and> l \<noteq> VNothing"
    using that by (rule Polyline_subscribe_entry)
qed

theorem polyline_events_witness:
  "Polyline_CreateEventObservable ''mousemove'' 1 = Subject_asObservable
   \<and> Polyline_CreateEventObservable ''rightclick'' 1 = Subject_asObservable
   \<and> Polyline_subscribe Subject_asObservable 2 one_polyline = Inr one_polyline
   \<and> (\<not> wired 2 one_polyline \<and> \<not> list_ex (supported_subscription 2) [Call_Polyline_subscribe ''mousemove'' 1 2, Polyline_Settle 0 (Fulfilled (VLine 4)), Polyline_RunJob, Polyline_RaiseEvent 4 ''mousemove'' 9])
   \<and> (received 2 (pcalls (prun [Call_Polyline_subscribe ''mousemove'' 1 2, Polyline_Settle 0 (Fulfilled (VLine 4)), Polyline_RunJob, Polyline_RaiseEvent 4 ''mousemove'' 9] one_polyline)) = received 2 (pcalls one_polyline))
   \<and> (''click'' \<noteq> ''mousemove'' \<and> ''click'' \<noteq> ''rightclick'' \<and> polylines three_lines 1 = Some 0 \<and>
      (pstates three_lines 0 = Some Pending \<or> pstates three_lines 0 = Some (Fulfilled (VLines 5))) \<and>
      pstates three_lines (next_pid three_lines) = None \<and> (VLines 5) \<noteq> VNothing)
   \<and> ((\<exists>st1. Polyline_subscribe (Polyline_CreateEventObservable ''click'' 1) 2 three_lines = Inr st1 \<and>
          pcalls st1 = pcalls three_lines \<and>
          (let st2 = Polyline_before_last_job (settle 0 (Fulfilled (VLines 5)) st1)
           in pcalls (Polyline_run_job st2)
                = pcalls st2 @ map (\<lambda>line. Polyline_AddListener line ''click'' (Forward 2))
                    (case (VLines 5) of VLine n \<Rightarrow> [n] | VLines a \<Rightarrow> arrays st2 a | VNothing \<Rightarrow> []))))"
proof -
  have a: "\<not> wired 2 one_polyline \<and> \<not> list_ex (supported_subscription 2) [Call_Polyline_subscribe ''mousemove'' 1 2, Polyline_Settle 0 (Fulfilled (VLine 4)), Polyline_RunJob, Polyline_RaiseEvent 4 ''mousemove'' 9]"
    by (simp add: one_polyline_eq wired_def awaits_def listens_def supported_subscription_def)
  have b: "''click'' \<noteq> ''mousemove'' \<and> ''click'' \<noteq> ''rightclick'' \<and> polylines three_lines 1 = Some 0 \<and>
      (pstates three_lines 0 = Some Pending \<or> pstates three_lines 0 = Some (Fulfilled (VLines 5))) \<and>
      pstates three_lines (next_pid three_lines) = None \<and> (VLines 5) \<noteq> VNothing"
    by (simp add: three_lines_facts)
  note t = polyline_events [where polyline = 1 and observer = 2 and stA = one_polyline
      and ob = 2 and stB = one_polyline
      and ops = "[Call_Polyline_subscribe ''mousemove'' 1 2, Polyline_Settle 0 (Fulfilled (VLine 4)), Polyline_RunJob, Polyline_RaiseEvent 4 ''mousemove'' 9]"
      and eventName = "''click''" and st = three_lines and h = 1 and p = 0 and l = "VLines 5"
      and observer' = 2]
  from t have c1: "Polyline_CreateEventObservable ''mousemove'' 1 = Subject_asObservable" by (elim conjE)
  from t have c2: "Polyline_CreateEventObservable ''rightclick'' 1 = Subject_asObservable" by (elim conjE)
  from t have c3: "Polyline_subscribe Subject_asObservable 2 one_polyline = Inr one_polyline" by (elim conjE)
  from t have i4: "\<not> wired 2 one_polyline \<and> \<not> list_ex (supported_subscription 2) [Call_Polyline_subscribe ''mousemove'' 1 2, Polyline_Settle 0 (Fulfilled (VLine 4)), Polyline_RunJob, Polyline_RaiseEvent 4 ''mousemove'' 9] \<longrightarrow>
      received 2 (pcalls (prun [Call_Polyline_subscribe ''mousemove'' 1 2, Polyline_Settle 0 (Fulfilled (VLine 4)), Polyline_RunJob, Polyline_RaiseEvent 4 ''mousemove'' 9] one_polyline)) = received 2 (pcalls one_polyline)" by (elim conjE)
  from i4 a have c4: "received 2 (pcalls (prun [Call_Polyline_subscribe ''mousemove'' 1 2, Polyline_Settle 0 (Fulfilled (VLine 4)), Polyline_RunJob, Polyline_RaiseEvent 4 ''mousemove'' 9] one_polyline)) = received 2 (pcalls one_polyline)" by (rule mp)
  from t have i5: "''click'' \<noteq> ''mousemove'' \<and> ''click'' \<noteq> ''rightclick'' \<and> polylines three_lines 1 = Some 0 \<and>
      (pstates three_lines 0 = Some Pending \<or> pstates three_lines 0 = Some (Fulfilled (VLines 5))) \<and>
      pstates three_lines (next_pid three_lines) = None \<and> (VLines 5) \<noteq> VNothing \<longrightarrow>
      (\<exists>st1. Polyline_subscribe (Polyline_CreateEventObservable ''click'' 1) 2 three_lines = Inr st1 \<and>
          pcalls st1 = pcalls three_lines \<and>
          (let st2 = Polyline_before_last_job (settle 0 (Fulfilled (VLines 5)) st1)
           in pcalls (Polyline_run_job st2)
                = pcalls st2 @ map (\<lambda>line. Polyline_AddListener line ''click'' (Forward 2))
                    (case (VLines 5) of VLine n \<Rightarrow> [n] | VLines a \<Rightarrow> arrays st2 a | VNothing \<Rightarrow> [])))" by (elim conjE)
  from i5 b have c5: "(\<exists>st1. Polyline_subscribe (Polyline_CreateEventObservable ''click'' 1) 2 three_lines = Inr st1 \<and>
          pcalls st1 = pcalls three_lines \<and>
          (let st2 = Polyline_before_last_job (settle 0 (Fulfilled (VLines 5)) st1)
           in pcalls (Polyline_run_job st2)
                = pcalls st2 @ map (\<lambda>line. Polyline_AddListener line ''click'' (Forward 2))
                    (case (VLines 5) of VLine n \<Rightarrow> [n] | VLines a \<Rightarrow> arrays st2 a | VNothing \<Rightarrow> [])))" by (rule mp)
  show ?thesis by (rule conjI [OF c1 conjI [OF c2 conjI [OF c3 conjI [OF a conjI [OF c4 conjI [OF b c5]]]]]])
qed
end

